theory Spec2Isabelle
  imports Complex_Main "HOL-Library.Word"
begin

unbundle bit_operations_syntax

text \<open>
  The audio and session core of the Smart Echo tutoring application: the PCM codec and
  the retry wrapper of \<^verbatim>\<open>services/geminiService\<close>, the image analysis built on the
  wrapper, and the live mentor session of the \<^verbatim>\<open>App\<close> component with its scheduled
  playback. The definitions follow the TypeScript source; the calls into the browser and
  into the remote service appear as explicit results and states.
\<close>

section \<open>PCM codec (services/geminiService: createPcmBlob, decodeAudioData)\<close>

text \<open>
  The bytes of an \<^verbatim>\<open>ArrayBuffer\<close> are a list of bytes and an \<^verbatim>\<open>Int16Array\<close> is a list of
  16-bit words.
  JavaScript numbers that hold audio samples and times are modelled as reals: for the
  values that occur here (a 32-bit float times \<open>32768\<close>, a 16-bit integer divided by
  \<open>32768\<close>) the floating-point operations of the source are exact, so the real number
  is the value the program computes. A \<^verbatim>\<open>Float32Array\<close> element is a finite number or
  \<^verbatim>\<open>NaN\<close>, the result of dividing \<^verbatim>\<open>undefined\<close> by a number.
\<close>

type_synonym byte = "8 word"
type_synonym int16 = "16 word"

datatype f32 = Num real | NaN

datatype dom_exception = RangeError | NotSupportedError | InvalidStateError | IndexSizeError

record audio_buffer =
  numberOfChannels :: nat
  frames :: nat
  sampleRate :: real
  channels :: "f32 list list"

text \<open>\<^verbatim>\<open>audioBuffer.duration\<close>: the length in frames over the sample rate.\<close>

definition duration :: "audio_buffer \<Rightarrow> real" where
  "duration b = real (frames b) / sampleRate b"

text \<open>
  \<^verbatim>\<open>new Uint8Array(int16.buffer)\<close> and \<^verbatim>\<open>new Int16Array(data.buffer)\<close> view the same
  memory in the byte order of the platform, little-endian on every platform a browser
  runs on. The constructor of \<^verbatim>\<open>Int16Array\<close> throws a \<^verbatim>\<open>RangeError\<close> when the byte
  length of the buffer is not a multiple of two.
\<close>

definition bytes_of_int16 :: "int16 \<Rightarrow> byte list" where
  "bytes_of_int16 w = [ucast w, ucast (drop_bit 8 w)]"

fun int16_of_bytes :: "byte list \<Rightarrow> int16 list" where
  "int16_of_bytes (lo # hi # bs) = (ucast lo OR push_bit 8 (ucast hi)) # int16_of_bytes bs"
| "int16_of_bytes _ = []"

text \<open>
  A \<^verbatim>\<open>Uint8Array\<close> is a view of an \<^verbatim>\<open>ArrayBuffer\<close>: the buffer, the offset of the view
  and its length. \<^verbatim>\<open>decode\<close> makes its result with \<^verbatim>\<open>new Uint8Array(len)\<close>, a view of
  the whole of a new buffer. \<^verbatim>\<open>new Int16Array(data.buffer)\<close> reads the buffer, all of it,
  whatever the offset and the length of \<open>data\<close>.
\<close>

record uint8array =
  array_buffer :: "byte list"
  byteOffset :: nat
  byteLength :: nat

definition fresh_array :: "byte list \<Rightarrow> uint8array" where
  "fresh_array bytes = \<lparr>array_buffer = bytes, byteOffset = 0, byteLength = length bytes\<rparr>"

definition Int16Array_of_buffer :: "byte list \<Rightarrow> dom_exception + int16 list" where
  "Int16Array_of_buffer buffer =
     (if odd (length buffer) then Inl RangeError else Inr (int16_of_bytes buffer))"

text \<open>
  Storing a number into an \<^verbatim>\<open>Int16Array\<close> truncates it towards zero and keeps the low
  sixteen bits (ToInt16 of ECMAScript).
\<close>

definition js_trunc :: "real \<Rightarrow> int" where
  "js_trunc x = (if x < 0 then \<lceil>x\<rceil> else \<lfloor>x\<rfloor>)"

definition ToInt16 :: "real \<Rightarrow> int16" where
  "ToInt16 x = word_of_int (js_trunc x)"

text \<open>
  \<^verbatim>\<open>createPcmBlob\<close>: \<^verbatim>\<open>for (i...) int16[i] = data[i] * 32768\<close>, then the bytes of the
  \<^verbatim>\<open>Int16Array\<close>. The field \<open>blob_data\<close> holds the bytes that the source hands to
  \<^verbatim>\<open>encode\<close>; the base64 text made of them is the transport form and is not modelled.
\<close>

record pcm_blob =
  blob_data :: "byte list"
  blob_mimeType :: string

primrec float_to_int16 :: "real list \<Rightarrow> int16 list" where
  "float_to_int16 [] = []"
| "float_to_int16 (x # xs) = ToInt16 (x * 32768) # float_to_int16 xs"

definition createPcmBlob :: "real list \<Rightarrow> pcm_blob" where
  "createPcmBlob data =
     \<lparr>blob_data = concat (map bytes_of_int16 (float_to_int16 data)),
      blob_mimeType = ''audio/pcm;rate=16000''\<rparr>"

text \<open>
  Typed arrays: a read out of range yields \<^verbatim>\<open>undefined\<close> (here \<open>None\<close>), a write out of
  range is ignored.
\<close>

definition typed_get :: "'a list \<Rightarrow> nat \<Rightarrow> 'a option" where
  "typed_get xs i = (if i < length xs then Some (xs ! i) else None)"

definition typed_set :: "'a list \<Rightarrow> nat \<Rightarrow> 'a \<Rightarrow> 'a list" where
  "typed_set xs i v = (if i < length xs then xs[i := v] else xs)"

text \<open>\<^verbatim>\<open>dataInt16[k] / 32768.0\<close>, where \<^verbatim>\<open>undefined / 32768.0\<close> is \<^verbatim>\<open>NaN\<close>.\<close>

definition sample_to_float :: "int16 option \<Rightarrow> f32" where
  "sample_to_float v = (case v of None \<Rightarrow> NaN | Some w \<Rightarrow> Num (real_of_int (sint w) / 32768))"

text \<open>
  \<^verbatim>\<open>ctx.createBuffer(numChannels, length, sampleRate)\<close> of the Web Audio API. The
  context is a parameter of \<^verbatim>\<open>decodeAudioData\<close>; of it the model keeps the ranges it
  supports, the largest channel count and the least and the greatest sample rate. The
  length is converted to an unsigned integer by truncation (buffer lengths stay below
  \<open>2^32\<close>). A \<^verbatim>\<open>NotSupportedError\<close> is thrown when an argument is zero or negative or lies
  outside the range the context supports; otherwise the new buffer is silent.
\<close>

record audio_context =
  max_channels :: nat
  min_rate :: real
  max_rate :: real

definition createBuffer ::
  "audio_context \<Rightarrow> nat \<Rightarrow> real \<Rightarrow> real \<Rightarrow> dom_exception + audio_buffer" where
  "createBuffer ctx numChannels len rate =
     (let n = nat (js_trunc len) in
      if numChannels = 0 \<or> max_channels ctx < numChannels \<or> n = 0 \<or> rate \<le> 0 \<or>
         rate < min_rate ctx \<or> max_rate ctx < rate
      then Inl NotSupportedError
      else Inr \<lparr>numberOfChannels = numChannels, frames = n, sampleRate = rate,
                channels = replicate numChannels (replicate n (Num 0))\<rparr>)"

text \<open>
  The ranges every implementation of the Web Audio API supports: up to 32 channels and
  sample rates from 8000 to 96000 Hz. The session creates its output context at 24000 Hz
  and decodes one channel at 24000 Hz, inside these ranges, so what a particular browser
  supports beyond them does not matter to the message handler.
\<close>

definition outputAudioCtx :: audio_context where
  "outputAudioCtx = \<lparr>max_channels = 32, min_rate = 8000, max_rate = 96000\<rparr>"

definition getChannelData :: "audio_buffer \<Rightarrow> nat \<Rightarrow> dom_exception + f32 list" where
  "getChannelData b channel =
     (if channel < length (channels b) then Inr (channels b ! channel) else Inl IndexSizeError)"

text \<open>
  The inner loop of \<^verbatim>\<open>decodeAudioData\<close>:
  \<^verbatim>\<open>for (let i = 0; i < frameCount; i++) channelData[i] = dataInt16[i * numChannels + channel] / 32768.0\<close>.
  \<open>frameCount\<close> is the quotient of the source, not rounded.
\<close>

function fill_channel :: "int16 list \<Rightarrow> nat \<Rightarrow> nat \<Rightarrow> real \<Rightarrow> nat \<Rightarrow> f32 list \<Rightarrow> f32 list" where
  "fill_channel dataInt16 numChannels channel frameCount i channelData =
     (if real i < frameCount
      then fill_channel dataInt16 numChannels channel frameCount (i + 1)
             (typed_set channelData i
                (sample_to_float (typed_get dataInt16 (i * numChannels + channel))))
      else channelData)"
  by pat_completeness auto
termination
  by (relation "measure (\<lambda>(d, n, c, frameCount, i, cd). nat \<lceil>frameCount\<rceil> - i)") (auto, linarith)

text \<open>
  The outer loop over the channels; the array that \<^verbatim>\<open>getChannelData\<close> returns is the
  channel of the buffer itself, so writing to it changes the buffer.
\<close>

function fill_buffer ::
  "int16 list \<Rightarrow> nat \<Rightarrow> real \<Rightarrow> nat \<Rightarrow> audio_buffer \<Rightarrow> dom_exception + audio_buffer" where
  "fill_buffer dataInt16 numChannels frameCount channel buffer =
     (if channel < numChannels then
        (case getChannelData buffer channel of
           Inl e \<Rightarrow> Inl e
         | Inr channelData \<Rightarrow>
             fill_buffer dataInt16 numChannels frameCount (channel + 1)
               (buffer\<lparr>channels := (channels buffer)
                  [channel := fill_channel dataInt16 numChannels channel frameCount 0 channelData]\<rparr>))
      else Inr buffer)"
  by pat_completeness auto
termination
  by (relation "measure (\<lambda>(d, numChannels, f, channel, b). numChannels - channel)") auto

text \<open>
  \<^verbatim>\<open>decodeAudioData(data, ctx, sampleRate = 24000, numChannels = 1)\<close>. With
  \<open>numChannels = 0\<close> the quotient of the source is infinite or \<^verbatim>\<open>NaN\<close>; \<open>createBuffer\<close>
  rejects that call whatever the length, so the value of the quotient is then immaterial.
\<close>

definition decodeAudioData ::
  "uint8array \<Rightarrow> audio_context \<Rightarrow> real \<Rightarrow> nat \<Rightarrow> dom_exception + audio_buffer" where
  "decodeAudioData data ctx rate numChannels =
     (case Int16Array_of_buffer (array_buffer data) of
        Inl e \<Rightarrow> Inl e
      | Inr dataInt16 \<Rightarrow>
          (let frameCount = real (length dataInt16) / real numChannels in
           case createBuffer ctx numChannels frameCount rate of
             Inl e \<Rightarrow> Inl e
           | Inr buffer \<Rightarrow> fill_buffer dataInt16 numChannels frameCount 0 buffer))"

section \<open>Retry policy (services/geminiService: withRetry)\<close>

text \<open>
  The value caught by \<^verbatim>\<open>catch (err: any)\<close> is probed by optional chaining. The model
  keeps the shapes the probes tell apart: \<^verbatim>\<open>undefined\<close>, a string, or an object with
  the fields \<^verbatim>\<open>status\<close>, \<^verbatim>\<open>error\<close> (itself with \<^verbatim>\<open>status\<close> and \<^verbatim>\<open>code\<close>) and
  \<^verbatim>\<open>message\<close>. A field value is \<^verbatim>\<open>undefined\<close>, \<^verbatim>\<open>null\<close>, a number or a string; a
  message, when present, is a string.
\<close>

datatype jsval = Undefined | Null | JNum int | JStr string

record error_body =
  body_status :: jsval
  body_code :: jsval

datatype thrown =
    ThrownUndefined
  | ThrownString string
  | ThrownObject jsval "error_body option" "string option"

text \<open>\<^verbatim>\<open>err?.status\<close>, \<^verbatim>\<open>err?.error?.status\<close>, \<^verbatim>\<open>err?.error?.code\<close>, \<^verbatim>\<open>err?.message\<close>.\<close>

fun err_status :: "thrown \<Rightarrow> jsval" where
  "err_status (ThrownObject st body msg) = st"
| "err_status _ = Undefined"

fun err_error_status :: "thrown \<Rightarrow> jsval" where
  "err_error_status (ThrownObject st (Some body) msg) = body_status body"
| "err_error_status _ = Undefined"

fun err_error_code :: "thrown \<Rightarrow> jsval" where
  "err_error_code (ThrownObject st (Some body) msg) = body_code body"
| "err_error_code _ = Undefined"

fun err_message :: "thrown \<Rightarrow> string option" where
  "err_message (ThrownObject st body msg) = msg"
| "err_message _ = None"

text \<open>Truthiness and the operator \<^verbatim>\<open>||\<close> of JavaScript.\<close>

fun truthy :: "jsval \<Rightarrow> bool" where
  "truthy Undefined = False"
| "truthy Null = False"
| "truthy (JNum n) = (n \<noteq> 0)"
| "truthy (JStr s) = (s \<noteq> [])"

definition js_or :: "jsval \<Rightarrow> jsval \<Rightarrow> jsval" where
  "js_or a b = (if truthy a then a else b)"

text \<open>\<^verbatim>\<open>String.prototype.includes\<close>.\<close>

fun starts_with :: "string \<Rightarrow> string \<Rightarrow> bool" where
  "starts_with s [] = True"
| "starts_with [] (p # ps) = False"
| "starts_with (c # cs) (p # ps) = (c = p \<and> starts_with cs ps)"

fun str_includes :: "string \<Rightarrow> string \<Rightarrow> bool" where
  "str_includes [] sub = (sub = [])"
| "str_includes (c # cs) sub = (starts_with (c # cs) sub \<or> str_includes cs sub)"

text \<open>
  \<^verbatim>\<open>const status = err?.status || err?.error?.status || err?.error?.code || (err?.message?.includes('429') ? 429 : null)\<close>
\<close>

definition retry_status :: "thrown \<Rightarrow> jsval" where
  "retry_status err =
     js_or (js_or (js_or (err_status err) (err_error_status err)) (err_error_code err))
       (case err_message err of
          None \<Rightarrow> Null
        | Some m \<Rightarrow> if str_includes m ''429'' then JNum 429 else Null)"

text \<open>\<^verbatim>\<open>const message = err?.message || (typeof err === 'string' ? err : '')\<close>\<close>

definition retry_message :: "thrown \<Rightarrow> string" where
  "retry_message err =
     (let other = (case err of ThrownString s \<Rightarrow> s | _ \<Rightarrow> [])
      in case err_message err of None \<Rightarrow> other | Some m \<Rightarrow> if m \<noteq> [] then m else other)"

text \<open>
  \<^verbatim>\<open>const isQuotaError = status === 429 || status === "RESOURCE_EXHAUSTED" || message.includes("RESOURCE_EXHAUSTED")\<close>
\<close>

definition isQuotaError :: "thrown \<Rightarrow> bool" where
  "isQuotaError err =
     (let status = retry_status err; message = retry_message err
      in status = JNum 429 \<or> status = JStr ''RESOURCE_EXHAUSTED'' \<or>
         str_includes message ''RESOURCE_EXHAUSTED'')"

text \<open>
  The operation \<^verbatim>\<open>fn\<close> is a function of a state of the outside world that returns
  what the promise settles to (\<open>Inl\<close> a rejection, \<open>Inr\<close> a value) and the next state.
  What \<^verbatim>\<open>withRetry\<close> does besides is recorded as a trace: each call of \<^verbatim>\<open>fn\<close> and
  each \<^verbatim>\<open>setTimeout\<close> delay, in milliseconds.
\<close>

datatype event = Invoke | Delay nat

fun invocations :: "event list \<Rightarrow> nat" where
  "invocations [] = 0"
| "invocations (Invoke # tr) = Suc (invocations tr)"
| "invocations (Delay ms # tr) = invocations tr"

fun total_delay :: "event list \<Rightarrow> nat" where
  "total_delay [] = 0"
| "total_delay (Invoke # tr) = total_delay tr"
| "total_delay (Delay ms # tr) = ms + total_delay tr"

text \<open>
  The loop \<^verbatim>\<open>for (let i = 0; i < maxRetries; i++)\<close> with its \<^verbatim>\<open>try\<close>/\<^verbatim>\<open>catch\<close>; leaving
  the loop, by \<^verbatim>\<open>break\<close> or at its end, reaches \<^verbatim>\<open>throw lastError\<close>.
\<close>

function withRetry_loop ::
  "('s \<Rightarrow> (thrown + 'a) \<times> 's) \<Rightarrow> int \<Rightarrow> nat \<Rightarrow> thrown \<Rightarrow> event list \<Rightarrow> 's
     \<Rightarrow> (thrown + 'a) \<times> event list \<times> 's" where
  "withRetry_loop fn maxRetries i lastError tr s =
     (if int i < maxRetries then
        (case fn s of
           (Inr v, s') \<Rightarrow> (Inr v, tr @ [Invoke], s')
         | (Inl err, s') \<Rightarrow>
             if \<not> isQuotaError err \<or> int i = maxRetries - 1
             then (Inl err, tr @ [Invoke], s')
             else withRetry_loop fn maxRetries (i + 1) err
                    (tr @ [Invoke, Delay (2 ^ i * 1000)]) s')
      else (Inl lastError, tr, s))"
  by pat_completeness auto
termination
  by (relation "measure (\<lambda>(fn, maxRetries, i, e, tr, s). nat (maxRetries - int i))") auto

definition withRetry ::
  "('s \<Rightarrow> (thrown + 'a) \<times> 's) \<Rightarrow> int \<Rightarrow> 's \<Rightarrow> (thrown + 'a) \<times> event list \<times> 's" where
  "withRetry fn maxRetries s = withRetry_loop fn maxRetries 0 ThrownUndefined [] s"

section \<open>Image analysis (services/geminiService: analyzeMathProblem)\<close>

text \<open>
  The remote call \<^verbatim>\<open>ai.models.generateContent\<close> and \<^verbatim>\<open>JSON.parse\<close> are parameters:
  \<open>generateContent\<close> settles to a rejection or to a response whose \<^verbatim>\<open>text\<close> may be
  \<^verbatim>\<open>undefined\<close>, and \<open>JSON_parse\<close> returns \<open>None\<close> where \<^verbatim>\<open>JSON.parse\<close> throws a
  \<^verbatim>\<open>SyntaxError\<close>. \<^verbatim>\<open>String.prototype.trim\<close> is the parameter \<open>trim\<close>. The request
  (image part, prompt, schema) is built before the retried function and does not change
  between attempts.
\<close>

datatype json =
    JNull
  | JBool bool
  | JNumber real
  | JString string
  | JArray "json list"
  | JObject "(string \<times> json) list"

record response =
  response_text :: "string option"

text \<open>
  The \<^verbatim>\<open>Error\<close> thrown by the \<^verbatim>\<open>catch\<close> around \<^verbatim>\<open>JSON.parse\<close>: an object with a message
  and neither \<^verbatim>\<open>status\<close> nor \<^verbatim>\<open>error\<close>.
\<close>

definition parse_error :: thrown where
  "parse_error = ThrownObject Undefined None
     (Some ''I had a little trouble organizing my thoughts. Could you show me the problem again?'')"

text \<open>
  The function passed to \<^verbatim>\<open>withRetry\<close>. Inside its \<^verbatim>\<open>try\<close>, \<^verbatim>\<open>response.text.trim()\<close>
  throws a \<^verbatim>\<open>TypeError\<close> when the text is \<^verbatim>\<open>undefined\<close> and \<^verbatim>\<open>JSON.parse\<close> throws on
  text that is not JSON; the \<^verbatim>\<open>catch\<close> turns both into \<open>parse_error\<close>. The parsed value
  is returned under the type assertion \<^verbatim>\<open>as MathAnalysis\<close>, which checks nothing.
\<close>

definition analyze_attempt ::
  "(string \<Rightarrow> string) \<Rightarrow> (string \<Rightarrow> json option) \<Rightarrow> ('s \<Rightarrow> (thrown + response) \<times> 's) \<Rightarrow> 's
     \<Rightarrow> (thrown + json) \<times> 's" where
  "analyze_attempt trim JSON_parse generateContent s =
     (case generateContent s of
        (Inl err, s') \<Rightarrow> (Inl err, s')
      | (Inr response, s') \<Rightarrow>
          (case response_text response of
             None \<Rightarrow> (Inl parse_error, s')
           | Some t \<Rightarrow>
               (case JSON_parse (trim t) of
                  None \<Rightarrow> (Inl parse_error, s')
                | Some parsed \<Rightarrow> (Inr parsed, s'))))"

definition analyzeMathProblem ::
  "(string \<Rightarrow> string) \<Rightarrow> (string \<Rightarrow> json option) \<Rightarrow> ('s \<Rightarrow> (thrown + response) \<times> 's) \<Rightarrow> 's
     \<Rightarrow> (thrown + json) \<times> event list \<times> 's" where
  "analyzeMathProblem trim JSON_parse generateContent s =
     withRetry (analyze_attempt trim JSON_parse generateContent) 3 s"

text \<open>
  The \<^verbatim>\<open>responseSchema\<close> sent with the request, as a predicate on parsed values: the
  types of the properties and the \<^verbatim>\<open>required\<close> lists.
\<close>

definition has_string :: "(string \<times> json) list \<Rightarrow> string \<Rightarrow> bool" where
  "has_string props k = (case map_of props k of Some (JString v) \<Rightarrow> True | _ \<Rightarrow> False)"

definition string_if_present :: "(string \<times> json) list \<Rightarrow> string \<Rightarrow> bool" where
  "string_if_present props k =
     (case map_of props k of None \<Rightarrow> True | Some (JString v) \<Rightarrow> True | _ \<Rightarrow> False)"

definition is_step :: "json \<Rightarrow> bool" where
  "is_step v =
     (case v of
        JObject props \<Rightarrow> has_string props ''title'' \<and> has_string props ''description''
      | _ \<Rightarrow> False)"

definition is_string :: "json \<Rightarrow> bool" where
  "is_string v = (case v of JString s \<Rightarrow> True | _ \<Rightarrow> False)"

definition matches_schema :: "json \<Rightarrow> bool" where
  "matches_schema v =
     (case v of
        JObject props \<Rightarrow>
          has_string props ''detectedProblem'' \<and>
          string_if_present props ''mistakeCorrection'' \<and>
          (case map_of props ''steps'' of Some (JArray xs) \<Rightarrow> list_all is_step xs | _ \<Rightarrow> False) \<and>
          has_string props ''finalAnswer'' \<and>
          has_string props ''voiceOutput'' \<and>
          (case map_of props ''tips'' of Some (JArray xs) \<Rightarrow> list_all is_string xs | _ \<Rightarrow> False)
      | _ \<Rightarrow> False)"

section \<open>Live mentor session (App: startLiveMentor, onmessage, stopLiveMentor)\<close>

text \<open>
  The model follows the \<^verbatim>\<open>App\<close> component whose message handler also treats
  \<^verbatim>\<open>serverContent.interrupted\<close>; in scheduling, starting and stopping the other copy of
  the component in the repository reads the same.
  The refs of the component and the objects they point to. A microphone stream, a remote
  session and an \<^verbatim>\<open>AudioBufferSourceNode\<close> are named by numbers; \<open>nodes\<close> holds every
  source node created so far, a node's handle being its index. \<open>stopped_streams\<close> are
  the streams whose tracks were stopped and \<open>closed_sessions\<close> the sessions whose
  channel was closed. \<open>broken_sessions\<close> are the sessions whose \<^verbatim>\<open>close()\<close> throws, the
  case the \<^verbatim>\<open>try\<close>/\<^verbatim>\<open>catch\<close> around it is written for. \<open>liveSourcesRef\<close> is a \<^verbatim>\<open>Set\<close>, kept
  in insertion order.
\<close>

record source_node =
  node_duration :: real
  started_at :: "real option"
  stopped :: bool

record live =
  liveSessionRef :: "nat option"
  liveStreamRef :: "nat option"
  liveNextStartTimeRef :: real
  liveSourcesRef :: "nat list"
  isLiveMode :: bool
  showMicHelp :: bool
  audioError :: "string option"
  nodes :: "source_node list"
  stopped_streams :: "nat set"
  closed_sessions :: "nat set"
  broken_sessions :: "nat set"

text \<open>The component as mounted: \<^verbatim>\<open>useRef(null)\<close>, \<^verbatim>\<open>useRef(0)\<close>, \<^verbatim>\<open>useRef(new Set())\<close>.\<close>

definition live_init :: live where
  "live_init =
     \<lparr>liveSessionRef = None, liveStreamRef = None, liveNextStartTimeRef = 0,
      liveSourcesRef = [], isLiveMode = False, showMicHelp = False, audioError = None,
      nodes = [], stopped_streams = {}, closed_sessions = {}, broken_sessions = {}\<rparr>"

text \<open>
  The Web Audio calls on a source node. \<^verbatim>\<open>start(when)\<close> throws a \<^verbatim>\<open>RangeError\<close> for a
  negative time and an \<^verbatim>\<open>InvalidStateError\<close> when called twice; \<^verbatim>\<open>stop()\<close> throws an
  \<^verbatim>\<open>InvalidStateError\<close> on a node that was never started. A number that names no node
  is treated like a node that cannot be used.
\<close>

definition createBufferSource :: "audio_buffer \<Rightarrow> live \<Rightarrow> nat \<times> live" where
  "createBufferSource buffer s =
     (length (nodes s),
      s\<lparr>nodes := nodes s @ [\<lparr>node_duration = duration buffer, started_at = None, stopped = False\<rparr>]\<rparr>)"

definition node_start :: "nat \<Rightarrow> real \<Rightarrow> live \<Rightarrow> dom_exception + live" where
  "node_start h when s =
     (if when < 0 then Inl RangeError
      else if length (nodes s) \<le> h \<or> started_at (nodes s ! h) \<noteq> None then Inl InvalidStateError
      else Inr (s\<lparr>nodes := (nodes s)[h := (nodes s ! h)\<lparr>started_at := Some when\<rparr>]\<rparr>))"

definition node_stop :: "nat \<Rightarrow> live \<Rightarrow> dom_exception + live" where
  "node_stop h s =
     (if length (nodes s) \<le> h \<or> started_at (nodes s ! h) = None then Inl InvalidStateError
      else Inr (s\<lparr>nodes := (nodes s)[h := (nodes s ! h)\<lparr>stopped := True\<rparr>]\<rparr>))"

text \<open>\<^verbatim>\<open>liveSourcesRef.current.forEach(s => { try { s.stop(); } catch(e) {} })\<close>\<close>

fun stop_all :: "nat list \<Rightarrow> live \<Rightarrow> live" where
  "stop_all [] s = s"
| "stop_all (h # hs) s = stop_all hs (case node_stop h s of Inl e \<Rightarrow> s | Inr s' \<Rightarrow> s')"

text \<open>\<^verbatim>\<open>Set.prototype.add\<close> and the \<^verbatim>\<open>ended\<close> listener \<^verbatim>\<open>liveSourcesRef.current.delete(source)\<close>.\<close>

definition set_add :: "nat list \<Rightarrow> nat \<Rightarrow> nat list" where
  "set_add xs h = (if h \<in> set xs then xs else xs @ [h])"

definition ended :: "nat \<Rightarrow> live \<Rightarrow> live" where
  "ended h s = s\<lparr>liveSourcesRef := removeAll h (liveSourcesRef s)\<rparr>"

text \<open>
  A server message, as far as playback reads it: the audio payload
  \<^verbatim>\<open>serverContent.modelTurn.parts[0].inlineData.data\<close> after \<^verbatim>\<open>decode\<close> (\<open>None\<close> when the
  field is absent or empty) and the flag \<^verbatim>\<open>serverContent.interrupted\<close>. The transcript
  bookkeeping at the head of the handler touches no playback state and is left out.
\<close>

record message =
  audio :: "byte list option"
  interrupted :: bool

definition handle_interrupted :: "message \<Rightarrow> live \<Rightarrow> live" where
  "handle_interrupted m s =
     (if interrupted m
      then (stop_all (liveSourcesRef s) s)\<lparr>liveSourcesRef := [], liveNextStartTimeRef := 0\<rparr>
      else s)"

text \<open>
  The \<^verbatim>\<open>onmessage\<close> callback, run when the output clock \<^verbatim>\<open>outputAudioCtx.currentTime\<close>
  reads \<open>currentTime\<close>. The result is the exception the handler ends with, if any, and
  the state it leaves: an exception from \<^verbatim>\<open>decodeAudioData\<close> or \<^verbatim>\<open>start\<close> ends the
  handler after \<open>liveNextStartTimeRef\<close> was raised to the clock.
\<close>

definition onmessage :: "real \<Rightarrow> message \<Rightarrow> live \<Rightarrow> dom_exception option \<times> live" where
  "onmessage currentTime m s =
     (case audio m of
        None \<Rightarrow> (None, handle_interrupted m s)
      | Some base64Audio \<Rightarrow>
          (let s1 = s\<lparr>liveNextStartTimeRef := max (liveNextStartTimeRef s) currentTime\<rparr>
           in case decodeAudioData (fresh_array base64Audio) outputAudioCtx 24000 1 of
                Inl e \<Rightarrow> (Some e, s1)
              | Inr audioBuffer \<Rightarrow>
                  (let (source, s2) = createBufferSource audioBuffer s1
                   in case node_start source (liveNextStartTimeRef s2) s2 of
                        Inl e \<Rightarrow> (Some e, s2)
                      | Inr s3 \<Rightarrow>
                          (None,
                           handle_interrupted m
                             (s3\<lparr>liveNextStartTimeRef :=
                                   liveNextStartTimeRef s3 + duration audioBuffer,
                                 liveSourcesRef := set_add (liveSourcesRef s3) source\<rparr>)))))"

text \<open>
  A message that carries audio only, the interruption signal alone, and the duration of
  the buffer that \<open>onmessage\<close> decodes from a payload (one channel at 24000 Hz).
\<close>

definition audio_message :: "byte list \<Rightarrow> message" where
  "audio_message data = \<lparr>audio = Some data, interrupted = False\<rparr>"

definition interruption :: message where
  "interruption = \<lparr>audio = None, interrupted = True\<rparr>"

definition chunk_duration :: "byte list \<Rightarrow> real" where
  "chunk_duration data = real (length data div 2) / 24000"

text \<open>
  \<^verbatim>\<open>stopLiveMentor\<close>. \<^verbatim>\<open>close()\<close> of a session and \<^verbatim>\<open>stop()\<close> of a source are the calls
  that can throw, each inside its own \<^verbatim>\<open>try\<close>/\<^verbatim>\<open>catch\<close>; stopping the tracks of a stream
  cannot.
\<close>

definition session_close :: "nat \<Rightarrow> live \<Rightarrow> dom_exception + live" where
  "session_close h s =
     (if h \<in> broken_sessions s then Inl InvalidStateError
      else Inr (s\<lparr>closed_sessions := insert h (closed_sessions s)\<rparr>))"

definition stop_tracks :: "nat \<Rightarrow> live \<Rightarrow> live" where
  "stop_tracks h s = s\<lparr>stopped_streams := insert h (stopped_streams s)\<rparr>"

definition stopLiveMentor :: "live \<Rightarrow> dom_exception + live" where
  "stopLiveMentor s =
     (let s1 = (case liveSessionRef s of
                  None \<Rightarrow> s
                | Some session \<Rightarrow>
                    (case session_close session s of Inl e \<Rightarrow> s | Inr s' \<Rightarrow> s')
                      \<lparr>liveSessionRef := None\<rparr>);
          s2 = (case liveStreamRef s1 of
                  None \<Rightarrow> s1
                | Some stream \<Rightarrow> (stop_tracks stream s1)\<lparr>liveStreamRef := None\<rparr>);
          s3 = stop_all (liveSourcesRef s2) s2
      in Inr (s3\<lparr>liveSourcesRef := [], isLiveMode := False\<rparr>))"

text \<open>
  \<^verbatim>\<open>startLiveMentor\<close>. \<open>has_analysis\<close> and \<open>insecure\<close> are the two tests before the
  guard; \<open>getUserMedia\<close> and \<open>connect\<close> are what \<^verbatim>\<open>navigator.mediaDevices.getUserMedia\<close>
  and \<^verbatim>\<open>ai.live.connect\<close> settle to, a rejection or the new stream and the new session.
  The \<^verbatim>\<open>catch\<close> tells a refused permission from other failures by the name and the
  message of the error.
\<close>

record media_error =
  error_name :: string
  error_message :: string

definition to_lower :: "char \<Rightarrow> char" where
  "to_lower c =
     (if 65 \<le> (of_char c :: nat) \<and> (of_char c :: nat) \<le> 90 then char_of (of_char c + 32 :: nat) else c)"

definition permission_denied :: "media_error \<Rightarrow> bool" where
  "permission_denied err =
     (error_name err = ''NotAllowedError'' \<or> error_name err = ''PermissionDeniedError'' \<or>
      str_includes (map to_lower (error_message err)) ''denied'' \<or>
      str_includes (map to_lower (error_message err)) ''permission'')"

definition start_failed :: "media_error \<Rightarrow> live \<Rightarrow> live" where
  "start_failed err s =
     (if permission_denied err then s\<lparr>showMicHelp := True\<rparr>
      else s\<lparr>audioError := Some ''Couldn't access microphone. Please check your hardware.''\<rparr>)
       \<lparr>isLiveMode := False\<rparr>"

definition startLiveMentor ::
  "bool \<Rightarrow> bool \<Rightarrow> media_error + nat \<Rightarrow> media_error + nat \<Rightarrow> live \<Rightarrow> live" where
  "startLiveMentor has_analysis insecure getUserMedia connect s =
     (if \<not> has_analysis then s
      else if insecure
      then s\<lparr>audioError :=
               Some ''Microphone access requires HTTPS. Please check your connection security.''\<rparr>
      else
        (let s1 = (case liveStreamRef s of None \<Rightarrow> s | Some stream \<Rightarrow> stop_tracks stream s);
             s2 = s1\<lparr>audioError := None\<rparr>
         in case getUserMedia of
              Inl err \<Rightarrow> start_failed err s2
            | Inr stream \<Rightarrow>
                (let s3 = s2\<lparr>liveStreamRef := Some stream, isLiveMode := True,
                              showMicHelp := False\<rparr>
                 in case connect of
                      Inl err \<Rightarrow> start_failed err s3
                    | Inr session \<Rightarrow> s3\<lparr>liveSessionRef := Some session\<rparr>)))"

text \<open>
  \<^verbatim>\<open>startLiveMentor\<close> is asynchronous: with an analysis present, a secure origin and a
  stream granted, it runs up to \<^verbatim>\<open>await sessionPromise\<close>, leaving the state
  \<open>awaiting_connect\<close>, and other handlers of the component can run before the connection
  settles and \<open>connect_settled\<close> runs the rest: \<^verbatim>\<open>liveSessionRef.current = await sessionPromise\<close>
  or the \<^verbatim>\<open>catch\<close>.
\<close>

definition awaiting_connect :: "nat \<Rightarrow> live \<Rightarrow> live" where
  "awaiting_connect stream s =
     (let s1 = (case liveStreamRef s of None \<Rightarrow> s | Some old \<Rightarrow> stop_tracks old s)
      in s1\<lparr>audioError := None, liveStreamRef := Some stream, isLiveMode := True,
            showMicHelp := False\<rparr>)"

definition connect_settled :: "media_error + nat \<Rightarrow> live \<Rightarrow> live" where
  "connect_settled connect s =
     (case connect of
        Inl err \<Rightarrow> start_failed err s
      | Inr session \<Rightarrow> s\<lparr>liveSessionRef := Some session\<rparr>)"

text \<open>
  Every handle in \<open>liveSourcesRef\<close> names a node that was started: the handler adds a
  source to the set only after \<^verbatim>\<open>start\<close> returned.
\<close>

definition sources_started :: "live \<Rightarrow> bool" where
  "sources_started s =
     list_all (\<lambda>h. h < length (nodes s) \<and> started_at (nodes s ! h) \<noteq> None) (liveSourcesRef s)"

section \<open>Concrete collaborators and states\<close>

text \<open>
  Operations and states used where a property is evaluated on a concrete input. The
  remote operations count their calls in their state. \<open>JSON_parse_sample\<close> gives the
  value of \<^verbatim>\<open>JSON.parse\<close> at the two texts used: the text \<^verbatim>\<open>{}\<close> parses to the empty
  object and \<^verbatim>\<open>not json\<close> does not parse.
\<close>

definition too_many_requests :: thrown where
  "too_many_requests = ThrownObject (JNum 429) None (Some ''Too Many Requests'')"

definition status_text_error :: thrown where
  "status_text_error = ThrownObject (JStr ''RESOURCE_EXHAUSTED'') None (Some ''quota'')"

definition always_fail :: "thrown \<Rightarrow> nat \<Rightarrow> (thrown + json) \<times> nat" where
  "always_fail err calls = (Inl err, Suc calls)"

definition always_reject :: "thrown \<Rightarrow> nat \<Rightarrow> (thrown + response) \<times> nat" where
  "always_reject err calls = (Inl err, Suc calls)"

definition always_reply :: "string \<Rightarrow> nat \<Rightarrow> (thrown + response) \<times> nat" where
  "always_reply t calls = (Inr \<lparr>response_text = Some t\<rparr>, Suc calls)"

text \<open>
  \<^verbatim>\<open>String.prototype.trim\<close> as it acts on texts of ASCII characters, where the white
  space and the line terminators are the six characters below.
\<close>

definition is_space :: "char \<Rightarrow> bool" where
  "is_space c = (c \<in> set [CHR '' '', CHR 0x09, CHR 0x0A, CHR 0x0B, CHR 0x0C, CHR 0x0D])"

definition trim_ascii :: "string \<Rightarrow> string" where
  "trim_ascii s = rev (dropWhile is_space (rev (dropWhile is_space s)))"

definition JSON_parse_sample :: "string \<Rightarrow> json option" where
  "JSON_parse_sample t = (if t = ''{}'' then Some (JObject []) else None)"

text \<open>
  The mounted component after one audio chunk of one frame was scheduled at clock \<open>0\<close>,
  and the same with a session started before.
\<close>

definition one_chunk_scheduled :: live where
  "one_chunk_scheduled = snd (onmessage 0 (audio_message [0x00, 0x40]) live_init)"

text \<open>
  A session that played one chunk at clock \<open>5\<close>, was stopped, and was started again.
\<close>

definition restarted_session :: live where
  "restarted_session =
     startLiveMentor True False (Inr 1) (Inr 1)
       (case stopLiveMentor
               (snd (onmessage 5 (audio_message [0x00, 0x40])
                       (startLiveMentor True False (Inr 0) (Inr 0) live_init))) of
          Inl e \<Rightarrow> live_init
        | Inr s \<Rightarrow> s)"

definition session_running :: live where
  "session_running =
     snd (onmessage 0 (audio_message [0x00, 0x40])
            (startLiveMentor True False (Inr 0) (Inr 0) live_init))"

section \<open>Properties of the PCM codec\<close>

declare fill_channel.simps [simp del]
declare fill_buffer.simps [simp del]

subsection \<open>Bytes and 16-bit samples\<close>

lemma int16_bytes_roundtrip:
  "ucast (ucast (w::int16) :: byte) OR push_bit 8 (ucast (ucast (drop_bit 8 w) :: byte)) = w"
  by (rule bit_word_eqI) (auto simp: bit_simps)

lemma int16_of_bytes_concat: "int16_of_bytes (concat (map bytes_of_int16 ws)) = ws"
  by (induction ws) (simp_all add: bytes_of_int16_def int16_bytes_roundtrip)

lemma length_concat_bytes: "length (concat (map bytes_of_int16 ws)) = 2 * length ws"
  by (induction ws) (simp_all add: bytes_of_int16_def)

lemma length_int16_of_bytes: "length (int16_of_bytes bs) = length bs div 2"
  by (induction bs rule: int16_of_bytes.induct) simp_all

lemma length_float_to_int16: "length (float_to_int16 xs) = length xs"
  by (induction xs) simp_all

lemma nth_float_to_int16: "i < length xs \<Longrightarrow> float_to_int16 xs ! i = ToInt16 (xs ! i * 32768)"
  by (induction xs arbitrary: i) (auto simp: nth_Cons split: nat.splits)

subsection \<open>The two loops of decodeAudioData\<close>

lemma length_fill_channel: "length (fill_channel d nc c fc i cd) = length cd"
  by (induction d nc c fc i cd rule: fill_channel.induct)
     (subst fill_channel.simps, simp add: typed_set_def)

lemma nth_fill_channel:
  "j < length cd \<Longrightarrow>
   fill_channel d nc c fc i cd ! j =
     (if i \<le> j \<and> real j < fc then sample_to_float (typed_get d (j * nc + c)) else cd ! j)"
proof (induction d nc c fc i cd rule: fill_channel.induct)
  case (1 d nc c fc i cd)
  show ?case
  proof (cases "real i < fc")
    case True
    with 1 show ?thesis
      by (subst fill_channel.simps) (auto simp: typed_set_def nth_list_update not_less_eq_eq le_Suc_eq)
  next
    case False
    then show ?thesis
      by (subst fill_channel.simps) auto
  qed
qed

lemma fill_buffer_ok:
  "length (channels b) = nc \<Longrightarrow>
   \<exists>b'. fill_buffer d nc fc k b = Inr b' \<and> numberOfChannels b' = numberOfChannels b \<and>
        frames b' = frames b \<and> sampleRate b' = sampleRate b \<and> length (channels b') = nc \<and>
        (\<forall>c<nc. channels b' ! c =
            (if k \<le> c then fill_channel d nc c fc 0 (channels b ! c) else channels b ! c))"
proof (induction d nc fc k b rule: fill_buffer.induct)
  case (1 d nc fc k b)
  show ?case
  proof (cases "k < nc")
    case True
    then have g: "getChannelData b k = Inr (channels b ! k)"
      using 1(2) by (simp add: getChannelData_def)
    let ?b = "b\<lparr>channels := (channels b)[k := fill_channel d nc k fc 0 (channels b ! k)]\<rparr>"
    have "length (channels ?b) = nc" using 1(2) by simp
    from 1(1)[OF True g this] obtain b' where
      b': "fill_buffer d nc fc (k + 1) ?b = Inr b'" "numberOfChannels b' = numberOfChannels b"
        "frames b' = frames b" "sampleRate b' = sampleRate b" "length (channels b') = nc"
        "\<forall>c<nc. channels b' ! c =
            (if k + 1 \<le> c then fill_channel d nc c fc 0 (channels ?b ! c) else channels ?b ! c)"
      by auto
    have "fill_buffer d nc fc k b = Inr b'"
      using True g b'(1) by (subst fill_buffer.simps) simp
    moreover have "\<forall>c<nc. channels b' ! c =
            (if k \<le> c then fill_channel d nc c fc 0 (channels b ! c) else channels b ! c)"
      using b'(6) 1(2) by (auto simp: nth_list_update not_less_eq_eq le_Suc_eq)
    ultimately show ?thesis using b' by blast
  next
    case False
    then show ?thesis using 1(2) by (subst fill_buffer.simps) auto
  qed
qed

lemma js_trunc_div: "js_trunc (real m / real n) = int (m div n)"
proof -
  have "\<not> real m / real n < 0" by (simp add: not_less)
  then show ?thesis by (simp add: js_trunc_def floor_divide_of_nat_eq)
qed

lemma frame_index_bound:
  assumes "i < m div n" "c < (n::nat)"
  shows "i * n + c < m"
proof -
  have "i * n + c < (i + 1) * n" using assms by simp
  also have "\<dots> \<le> (m div n) * n" using assms by (intro mult_le_mono1) simp
  also have "\<dots> \<le> m" by simp
  finally show ?thesis .
qed

lemma frame_lt_quotient:
  assumes "i < m div n" "0 < (n::nat)"
  shows "real i < real m / real n"
proof -
  have "i * n < m" using frame_index_bound[OF assms(1), of 0] assms by simp
  then have "real (i * n) < real m" by (simp only: of_nat_less_iff)
  then show ?thesis using assms by (simp add: pos_less_divide_eq)
qed

lemma decodeAudioData_ok:
  assumes "even (length bs)" "0 < nc" "nc \<le> length bs div 2" "0 < rate"
    and "array_buffer data = bs" "nc \<le> max_channels ctx" "min_rate ctx \<le> rate"
    "rate \<le> max_rate ctx"
  shows "\<exists>buf. decodeAudioData data ctx rate nc = Inr buf \<and> numberOfChannels buf = nc \<and>
           frames buf = (length bs div 2) div nc \<and> sampleRate buf = rate \<and>
           length (channels buf) = nc \<and>
           (\<forall>c<nc. length (channels buf ! c) = (length bs div 2) div nc \<and>
              (\<forall>i<(length bs div 2) div nc.
                 channels buf ! c ! i =
                   Num (real_of_int (sint (int16_of_bytes bs ! (i * nc + c))) / 32768)))"
proof -
  let ?d = "int16_of_bytes bs"
  let ?len = "length bs div 2"
  let ?n = "?len div nc"
  let ?fc = "real (length ?d) / real nc"
  let ?b = "\<lparr>numberOfChannels = nc, frames = ?n, sampleRate = rate,
            channels = replicate nc (replicate ?n (Num 0))\<rparr>"
  have n_pos: "0 < ?n" using assms by (simp add: div_greater_zero_iff)
  have "\<not> max_channels ctx < nc" "\<not> rate \<le> 0" "\<not> rate < min_rate ctx" "\<not> max_rate ctx < rate"
    using assms by simp_all
  then have cb: "createBuffer ctx nc ?fc rate = Inr ?b"
    using assms(2) n_pos by (simp add: createBuffer_def js_trunc_div length_int16_of_bytes Let_def)
  from fill_buffer_ok[of ?b nc ?d ?fc 0] obtain b' where
    b': "fill_buffer ?d nc ?fc 0 ?b = Inr b'" "numberOfChannels b' = nc"
      "frames b' = ?n" "sampleRate b' = rate" "length (channels b') = nc"
      "\<forall>c<nc. channels b' ! c = fill_channel ?d nc c ?fc 0 (channels ?b ! c)"
    by auto
  have dec: "decodeAudioData data ctx rate nc = Inr b'"
    using assms(1,5) cb b'(1) by (simp add: decodeAudioData_def Int16Array_of_buffer_def Let_def)
  have "length (channels b' ! c) = ?n \<and>
        (\<forall>i<?n. channels b' ! c ! i = Num (real_of_int (sint (?d ! (i * nc + c))) / 32768))"
    if c: "c < nc" for c
  proof -
    have eq: "channels b' ! c = fill_channel ?d nc c ?fc 0 (replicate ?n (Num 0))"
      using b'(6) c by simp
    have "channels b' ! c ! i = Num (real_of_int (sint (?d ! (i * nc + c))) / 32768)"
      if i: "i < ?n" for i
    proof -
      have "i * nc + c < length ?d"
        using frame_index_bound[OF i c] by (simp add: length_int16_of_bytes)
      moreover have "real i < ?fc"
        using frame_lt_quotient[OF i assms(2)] by (simp add: length_int16_of_bytes)
      ultimately show ?thesis
        using i by (simp add: eq nth_fill_channel typed_get_def sample_to_float_def)
    qed
    then show ?thesis by (simp add: eq length_fill_channel)
  qed
  then show ?thesis using dec b' by blast
qed


lemma nth_int16_of_bytes:
  "k < length bs div 2 \<Longrightarrow>
   int16_of_bytes bs ! k = ucast (bs ! (2 * k)) OR push_bit 8 (ucast (bs ! (2 * k + 1)))"
proof (induction bs arbitrary: k rule: int16_of_bytes.induct)
  case (1 lo hi bs)
  then show ?case by (cases k) simp_all
qed simp_all

subsection \<open>Quantisation\<close>

lemma js_trunc_error: "\<bar>real_of_int (js_trunc y) - y\<bar> < 1"
  unfolding js_trunc_def by (simp, linarith)

lemma js_trunc_range:
  assumes "- 32768 \<le> y" "y < 32768"
  shows "- 32768 \<le> js_trunc y \<and> js_trunc y < 32768"
  using assms unfolding js_trunc_def
  by (auto simp: le_ceiling_iff ceiling_less_iff le_floor_iff floor_less_iff)

lemma sint_ToInt16:
  assumes "- 1 \<le> x" "x < 1"
  shows "sint (ToInt16 (x * 32768)) = js_trunc (x * 32768)"
proof -
  have "- 32768 \<le> x * 32768" "x * 32768 < 32768" using assms by simp_all
  then have "- 32768 \<le> js_trunc (x * 32768) \<and> js_trunc (x * 32768) < 32768"
    by (rule js_trunc_range)
  then show ?thesis
    by (simp add: ToInt16_def sint_sbintrunc' signed_take_bit_int_eq_self)
qed

lemma sample_roundtrip:
  assumes "- 1 \<le> x" "x < 1"
  shows "\<bar>real_of_int (sint (ToInt16 (x * 32768))) / 32768 - x\<bar> < 1 / 32768"
proof -
  have "\<bar>real_of_int (js_trunc (x * 32768)) - x * 32768\<bar> < 1"
    by (rule js_trunc_error)
  then show ?thesis
    by (simp add: sint_ToInt16[OF assms] field_simps abs_if split: if_splits)
qed

subsection \<open>Round trip\<close>

text \<open>
  Claim C1, as the code has it. For every non-empty sequence of samples \<open>x\<close> with
  \<open>-1 \<le> x < 1\<close>, decoding the bytes that \<open>createPcmBlob\<close> produces, at one channel and
  at a sample rate the context supports, succeeds and yields one channel of the same length, each decoded sample differing
  from the original by less than \<open>1/32768\<close>. The upper end \<open>x = 1\<close> is excluded: no
  clamping is done, \<open>1 * 32768\<close> does not fit sixteen signed bits and wraps to \<open>-32768\<close>.
\<close>

theorem pcm_roundtrip:
  assumes "data \<noteq> []" and "\<forall>x\<in>set data. - 1 \<le> x \<and> x < 1" and "0 < rate"
    and "1 \<le> max_channels ctx" and "min_rate ctx \<le> rate" and "rate \<le> max_rate ctx"
  shows "\<exists>buf ys. decodeAudioData (fresh_array (blob_data (createPcmBlob data))) ctx rate 1 = Inr buf \<and>
           channels buf = [ys] \<and> length ys = length data \<and>
           (\<forall>i<length data. \<exists>y. ys ! i = Num y \<and> \<bar>y - data ! i\<bar> < 1 / 32768)"
proof -
  let ?ws = "float_to_int16 data"
  let ?bs = "blob_data (createPcmBlob data)"
  have bs: "?bs = concat (map bytes_of_int16 ?ws)" by (simp add: createPcmBlob_def)
  have len: "length ?bs div 2 = length data"
    by (simp add: bs length_concat_bytes length_float_to_int16)
  have "even (length ?bs)" by (simp add: bs length_concat_bytes)
  moreover have "1 \<le> length ?bs div 2" using assms(1) by (simp add: len Suc_le_eq)
  ultimately obtain buf where
    buf: "decodeAudioData (fresh_array ?bs) ctx rate 1 = Inr buf" "length (channels buf) = 1"
      "length (channels buf ! 0) = length data"
      "\<forall>i<length data. channels buf ! 0 ! i =
          Num (real_of_int (sint (int16_of_bytes ?bs ! i)) / 32768)"
    using decodeAudioData_ok[of ?bs 1 rate "fresh_array ?bs" ctx] assms(3-6)
    by (auto simp: len fresh_array_def)
  obtain ys where ys: "channels buf = [ys]"
    using buf(2) by (cases "channels buf") auto
  have "\<exists>y. ys ! i = Num y \<and> \<bar>y - data ! i\<bar> < 1 / 32768" if i: "i < length data" for i
  proof -
    have "data ! i \<in> set data" using i by simp
    then have r: "- 1 \<le> data ! i" "data ! i < 1" using assms(2) by auto
    have "ys ! i = Num (real_of_int (sint (ToInt16 (data ! i * 32768))) / 32768)"
      using buf(4) i ys by (simp add: bs int16_of_bytes_concat nth_float_to_int16)
    then show ?thesis using sample_roundtrip[OF r] by blast
  qed
  then show ?thesis using buf ys by auto
qed

text \<open>The round trip at the samples \<open>1/2\<close> and \<open>-1\<close>.\<close>

theorem pcm_roundtrip_witness:
  "\<exists>buf ys. decodeAudioData (fresh_array (blob_data (createPcmBlob [1 / 2, - 1])))
              outputAudioCtx 24000 1 = Inr buf \<and>
      channels buf = [ys] \<and> length ys = 2 \<and>
      (\<exists>y. ys ! 0 = Num y \<and> \<bar>y - 1 / 2\<bar> < 1 / 32768) \<and>
      (\<exists>y. ys ! 1 = Num y \<and> \<bar>y - (- 1)\<bar> < 1 / 32768)"
proof -
  have "[1 / 2, - 1] \<noteq> ([] :: real list)" "\<forall>x\<in>set [1 / 2, - 1 :: real]. - 1 \<le> x \<and> x < 1"
    "(0 :: real) < 24000" "1 \<le> max_channels outputAudioCtx" "min_rate outputAudioCtx \<le> 24000"
    "24000 \<le> max_rate outputAudioCtx"
    by (simp_all add: outputAudioCtx_def)
  from pcm_roundtrip[OF this] obtain buf ys where
    b: "decodeAudioData (fresh_array (blob_data (createPcmBlob [1 / 2, - 1])))
          outputAudioCtx 24000 1 = Inr buf"
      "channels buf = [ys]" "length ys = 2"
      "\<forall>i<2. \<exists>y. ys ! i = Num y \<and> \<bar>y - [1 / 2, - 1] ! i\<bar> < 1 / 32768"
    by auto
  from b(4) have "\<exists>y. ys ! 0 = Num y \<and> \<bar>y - 1 / 2\<bar> < 1 / 32768"
    by (auto dest: spec[of _ 0])
  moreover from b(4) have "\<exists>y. ys ! 1 = Num y \<and> \<bar>y - (- 1)\<bar> < 1 / 32768"
    by (auto dest: spec[of _ 1])
  ultimately show ?thesis using b(1-3) by blast
qed

lemma createPcmBlob_one: "blob_data (createPcmBlob [1]) = [0x00, 0x80]"
  by (simp add: createPcmBlob_def ToInt16_def js_trunc_def bytes_of_int16_def)

text \<open>
  Claim C1 as stated fails at the sample \<open>1\<close>, which lies in \<open>[-1, 1]\<close>: it is encoded
  as the bytes \<open>00 80\<close> and decoded as \<open>-1\<close>, a difference of \<open>2\<close>.
\<close>

theorem pcm_roundtrip_counterexample:
  "decodeAudioData (fresh_array (blob_data (createPcmBlob [1]))) outputAudioCtx 24000 1 =
     Inr \<lparr>numberOfChannels = 1, frames = 1, sampleRate = 24000, channels = [[Num (- 1)]]\<rparr> \<and>
   \<not> \<bar>(- 1) - (1 :: real)\<bar> \<le> 1 / 32768"
  by (simp add: createPcmBlob_one decodeAudioData_def Int16Array_of_buffer_def createBuffer_def
      fresh_array_def outputAudioCtx_def js_trunc_def getChannelData_def fill_buffer.simps fill_channel.simps typed_set_def
      typed_get_def sample_to_float_def)

subsection \<open>Shape of the decoded buffer\<close>

lemma decodeAudioData_odd:
  "odd (length (array_buffer data)) \<Longrightarrow> decodeAudioData data ctx rate nc = Inl RangeError"
  by (simp add: decodeAudioData_def Int16Array_of_buffer_def)

lemma decodeAudioData_unsupported:
  assumes "even (length (array_buffer data))"
    and "nc = 0 \<or> max_channels ctx < nc \<or> length (array_buffer data) div 2 < nc \<or> rate \<le> 0 \<or>
         rate < min_rate ctx \<or> max_rate ctx < rate"
  shows "decodeAudioData data ctx rate nc = Inl NotSupportedError"
proof -
  have "nat (js_trunc (real (length (array_buffer data) div 2) / real nc)) = 0"
    if "length (array_buffer data) div 2 < nc"
    using that by (simp add: js_trunc_div)
  then show ?thesis
    using assms
    by (auto simp: decodeAudioData_def Int16Array_of_buffer_def createBuffer_def Let_def
        length_int16_of_bytes)
qed

text \<open>
  Claim C10, as the code has it. The bytes decoded are those of the whole buffer under
  \<open>data\<close>. If their number is odd, \<open>decodeAudioData\<close> throws a \<^verbatim>\<open>RangeError\<close>. If it is
  even and the channel count is zero, exceeds what the context supports or exceeds the
  number of 16-bit samples, or the sample rate is not one the context supports, it throws
  a \<^verbatim>\<open>NotSupportedError\<close>. In every other case it returns a planar buffer with that many
  channels whose frame count is the sample count divided by the channel count, rounded
  down; frame \<open>i\<close> of channel \<open>c\<close> is the little-endian signed 16-bit sample number
  \<open>i * numChannels + c\<close> divided by \<open>32768\<close>, so the samples of a trailing incomplete frame
  appear nowhere in the buffer.
\<close>

theorem decodeAudioData_shape:
  "(odd (length (array_buffer data)) \<longrightarrow> decodeAudioData data ctx rate nc = Inl RangeError) \<and>
   (even (length (array_buffer data)) \<and>
      (nc = 0 \<or> max_channels ctx < nc \<or> length (array_buffer data) div 2 < nc \<or> rate \<le> 0 \<or>
       rate < min_rate ctx \<or> max_rate ctx < rate) \<longrightarrow>
      decodeAudioData data ctx rate nc = Inl NotSupportedError) \<and>
   (even (length (array_buffer data)) \<and> 1 \<le> nc \<and> nc \<le> max_channels ctx \<and>
      nc \<le> length (array_buffer data) div 2 \<and> 0 < rate \<and> min_rate ctx \<le> rate \<and>
      rate \<le> max_rate ctx \<longrightarrow>
      (\<exists>buf. decodeAudioData data ctx rate nc = Inr buf \<and> numberOfChannels buf = nc \<and>
         frames buf = (length (array_buffer data) div 2) div nc \<and> sampleRate buf = rate \<and>
         length (channels buf) = nc \<and>
         (\<forall>c<nc. length (channels buf ! c) = (length (array_buffer data) div 2) div nc \<and>
            (\<forall>i<(length (array_buffer data) div 2) div nc.
               channels buf ! c ! i =
                 Num (real_of_int (sint (ucast (array_buffer data ! (2 * (i * nc + c))) OR
                        push_bit 8 (ucast (array_buffer data ! (2 * (i * nc + c) + 1))) :: int16)) /
                      32768)))))"
proof (intro conjI impI)
  assume "odd (length (array_buffer data))"
  then show "decodeAudioData data ctx rate nc = Inl RangeError" by (rule decodeAudioData_odd)
next
  assume "even (length (array_buffer data)) \<and>
      (nc = 0 \<or> max_channels ctx < nc \<or> length (array_buffer data) div 2 < nc \<or> rate \<le> 0 \<or>
       rate < min_rate ctx \<or> max_rate ctx < rate)"
  then show "decodeAudioData data ctx rate nc = Inl NotSupportedError"
    using decodeAudioData_unsupported[of data nc ctx rate] by blast
next
  let ?bs = "array_buffer data"
  assume a: "even (length ?bs) \<and> 1 \<le> nc \<and> nc \<le> max_channels ctx \<and>
      nc \<le> length ?bs div 2 \<and> 0 < rate \<and> min_rate ctx \<le> rate \<and> rate \<le> max_rate ctx"
  from decodeAudioData_ok[of ?bs nc rate data ctx] a obtain buf where
    buf: "decodeAudioData data ctx rate nc = Inr buf" "numberOfChannels buf = nc"
      "frames buf = (length ?bs div 2) div nc" "sampleRate buf = rate" "length (channels buf) = nc"
      "\<forall>c<nc. length (channels buf ! c) = (length ?bs div 2) div nc \<and>
         (\<forall>i<(length ?bs div 2) div nc.
            channels buf ! c ! i = Num (real_of_int (sint (int16_of_bytes ?bs ! (i * nc + c))) / 32768))"
    by auto
  have "int16_of_bytes ?bs ! (i * nc + c) =
          ucast (?bs ! (2 * (i * nc + c))) OR push_bit 8 (ucast (?bs ! (2 * (i * nc + c) + 1)))"
    if "c < nc" "i < (length ?bs div 2) div nc" for i c
    using that by (intro nth_int16_of_bytes frame_index_bound)
  with buf show "\<exists>buf. decodeAudioData data ctx rate nc = Inr buf \<and> numberOfChannels buf = nc \<and>
         frames buf = (length ?bs div 2) div nc \<and> sampleRate buf = rate \<and>
         length (channels buf) = nc \<and>
         (\<forall>c<nc. length (channels buf ! c) = (length ?bs div 2) div nc \<and>
            (\<forall>i<(length ?bs div 2) div nc.
               channels buf ! c ! i =
                 Num (real_of_int (sint (ucast (?bs ! (2 * (i * nc + c))) OR
                        push_bit 8 (ucast (?bs ! (2 * (i * nc + c) + 1))) :: int16)) /
                      32768)))"
    by (intro exI[of _ buf]) simp
qed

text \<open>
  The bytes \<open>00 40\<close> at one channel decode to the single sample \<open>1/2\<close>; with a third byte
  the call throws a \<^verbatim>\<open>RangeError\<close>, and at 100 Hz a \<^verbatim>\<open>NotSupportedError\<close>.
\<close>

theorem decodeAudioData_shape_witness:
  "decodeAudioData (fresh_array [0x00, 0x40]) outputAudioCtx 24000 1 =
     Inr \<lparr>numberOfChannels = 1, frames = 1, sampleRate = 24000, channels = [[Num (1 / 2)]]\<rparr> \<and>
   decodeAudioData (fresh_array [0x00, 0x40, 0x7F]) outputAudioCtx 24000 1 = Inl RangeError \<and>
   decodeAudioData (fresh_array [0x00, 0x40]) outputAudioCtx 100 1 = Inl NotSupportedError"
proof -
  note t = decodeAudioData_shape[where ctx = outputAudioCtx and nc = 1]
  from t[of "fresh_array [0x00, 0x40]" 24000] obtain buf where
    buf: "decodeAudioData (fresh_array [0x00, 0x40]) outputAudioCtx 24000 1 = Inr buf"
      "numberOfChannels buf = 1" "frames buf = 1" "sampleRate buf = 24000"
      "length (channels buf) = 1" "length (channels buf ! 0) = 1"
      "channels buf ! 0 ! 0 = Num (1 / 2)"
    by (auto simp: fresh_array_def outputAudioCtx_def)
  have "channels buf = [[Num (1 / 2)]]"
    using buf(5-7) by (cases "channels buf"; cases "hd (channels buf)") auto
  then have "buf = \<lparr>numberOfChannels = 1, frames = 1, sampleRate = 24000, channels = [[Num (1 / 2)]]\<rparr>"
    using buf(2-4) by simp
  moreover have "decodeAudioData (fresh_array [0x00, 0x40, 0x7F]) outputAudioCtx 24000 1 = Inl RangeError"
    using t[of "fresh_array [0x00, 0x40, 0x7F]" 24000] by (simp add: fresh_array_def)
  moreover have "decodeAudioData (fresh_array [0x00, 0x40]) outputAudioCtx 100 1 = Inl NotSupportedError"
    using t[of "fresh_array [0x00, 0x40]" 100] by (simp add: fresh_array_def outputAudioCtx_def)
  ultimately show ?thesis using buf(1) by simp
qed

text \<open>
  Claim C10 as stated, for every byte sequence, fails on a sequence with a trailing odd
  byte, where the \<^verbatim>\<open>Int16Array\<close> constructor throws, and on the empty sequence, where
  \<^verbatim>\<open>createBuffer\<close> rejects a buffer of zero frames.
\<close>

theorem decodeAudioData_shape_counterexample:
  "decodeAudioData (fresh_array [0x00, 0x40, 0x7F]) outputAudioCtx 24000 1 = Inl RangeError \<and>
   decodeAudioData (fresh_array []) outputAudioCtx 24000 1 = Inl NotSupportedError"
  by (simp add: decodeAudioData_def Int16Array_of_buffer_def createBuffer_def js_trunc_def
      fresh_array_def outputAudioCtx_def)

section \<open>Properties of the retry policy\<close>

declare withRetry_loop.simps [simp del]

subsection \<open>One pass of the loop\<close>

lemma withRetry_loop_success:
  "int i < maxRetries \<Longrightarrow> fn s = (Inr v, s') \<Longrightarrow>
   withRetry_loop fn maxRetries i lastError tr s = (Inr v, tr @ [Invoke], s')"
  by (subst withRetry_loop.simps) simp

lemma withRetry_loop_fatal:
  "int i < maxRetries \<Longrightarrow> fn s = (Inl err, s') \<Longrightarrow> \<not> isQuotaError err \<Longrightarrow>
   withRetry_loop fn maxRetries i lastError tr s = (Inl err, tr @ [Invoke], s')"
  by (subst withRetry_loop.simps) simp

lemma withRetry_loop_last:
  "int i = maxRetries - 1 \<Longrightarrow> fn s = (Inl err, s') \<Longrightarrow>
   withRetry_loop fn maxRetries i lastError tr s = (Inl err, tr @ [Invoke], s')"
  by (subst withRetry_loop.simps) simp

lemma withRetry_loop_again:
  "int i < maxRetries - 1 \<Longrightarrow> fn s = (Inl err, s') \<Longrightarrow> isQuotaError err \<Longrightarrow>
   withRetry_loop fn maxRetries i lastError tr s =
     withRetry_loop fn maxRetries (i + 1) err (tr @ [Invoke, Delay (2 ^ i * 1000)]) s'"
  by (subst withRetry_loop.simps) simp

text \<open>
  The trace only grows: what the loop returns extends the trace it was entered with.
\<close>

lemma withRetry_loop_trace:
  "\<exists>ext. fst (snd (withRetry_loop fn maxRetries i lastError tr s)) = tr @ ext"
proof (induction fn maxRetries i lastError tr s rule: withRetry_loop.induct)
  case (1 fn maxRetries i lastError tr s)
  show ?case
  proof (cases "int i < maxRetries")
    case False
    then show ?thesis by (subst withRetry_loop.simps) simp
  next
    case True
    obtain r s' where f: "fn s = (r, s')" by (cases "fn s")
    show ?thesis
    proof (cases r)
      case (Inr v)
      then show ?thesis using True f by (simp add: withRetry_loop_success)
    next
      case (Inl err)
      show ?thesis
      proof (cases "\<not> isQuotaError err \<or> int i = maxRetries - 1")
        case stop: True
        then show ?thesis
          using True f Inl by (subst withRetry_loop.simps) auto
      next
        case again: False
        from 1[OF True f[symmetric] Inl again] obtain ext where
          "fst (snd (withRetry_loop fn maxRetries (i + 1) err
                       (tr @ [Invoke, Delay (2 ^ i * 1000)]) s')) =
             (tr @ [Invoke, Delay (2 ^ i * 1000)]) @ ext" ..
        then show ?thesis
          using True f Inl again by (subst withRetry_loop.simps) simp
      qed
    qed
  qed
qed

subsection \<open>Whole runs\<close>

lemma withRetry_quota_thrice:
  assumes "fn s = (Inl e1, s1)" "isQuotaError e1" "fn s1 = (Inl e2, s2)" "isQuotaError e2"
    "fn s2 = (Inl e3, s3)"
  shows "withRetry fn 3 s = (Inl e3, [Invoke, Delay 1000, Invoke, Delay 2000, Invoke], s3)"
proof -
  have "withRetry fn 3 s = withRetry_loop fn 3 1 e1 [Invoke, Delay 1000] s1"
    unfolding withRetry_def using withRetry_loop_again[of 0 3 fn s e1 s1] assms by simp
  also have "\<dots> = withRetry_loop fn 3 2 e2 [Invoke, Delay 1000, Invoke, Delay 2000] s2"
    using withRetry_loop_again[of 1 3 fn s1 e2 s2 e1 "[Invoke, Delay 1000]"] assms
    by (simp add: numeral_2_eq_2)
  also have "\<dots> = (Inl e3, [Invoke, Delay 1000, Invoke, Delay 2000, Invoke], s3)"
    using withRetry_loop_last[of 2 3 fn s2 e3 s3 e2 "[Invoke, Delay 1000, Invoke, Delay 2000]"] assms
    by simp
  finally show ?thesis .
qed

lemma withRetry_fatal_first:
  assumes "fn s = (Inl e, s')" and "\<not> isQuotaError e" and "0 < maxRetries"
  shows "withRetry fn maxRetries s = (Inl e, [Invoke], s')"
  unfolding withRetry_def using withRetry_loop_fatal[of 0 maxRetries fn s e s'] assms by simp

lemma withRetry_success_first:
  assumes "fn s = (Inr v, s')" and "0 < maxRetries"
  shows "withRetry fn maxRetries s = (Inr v, [Invoke], s')"
  unfolding withRetry_def using withRetry_loop_success[of 0 maxRetries fn s v s'] assms by simp

subsection \<open>Classification of the sample errors\<close>

lemma isQuotaError_too_many_requests: "isQuotaError too_many_requests"
  by (simp add: isQuotaError_def retry_status_def js_or_def too_many_requests_def)

lemma isQuotaError_status_text_error: "isQuotaError status_text_error"
  by (simp add: isQuotaError_def retry_status_def js_or_def status_text_error_def)

lemma not_isQuotaError_parse_error: "\<not> isQuotaError parse_error"
  by (simp add: isQuotaError_def retry_status_def retry_message_def js_or_def parse_error_def)

lemma status_429_isQuotaError: "err_status e = JNum 429 \<Longrightarrow> isQuotaError e"
  by (simp add: isQuotaError_def retry_status_def js_or_def)

subsection \<open>Retry ceiling\<close>

text \<open>
  Claim C2. If every call of the operation fails with an error that \<open>isQuotaError\<close>
  accepts, \<open>withRetry\<close> with three attempts calls the operation exactly three times, each
  call in the state the previous one left, waits 1000 ms before the second call and 2000
  ms before the third (3000 ms in all), and throws the error of the third call as it is.
  The delay \<open>2 ^ i\<close> seconds follows the failed attempt number \<open>i\<close>, counted from zero.
\<close>

theorem withRetry_ceiling:
  assumes "\<forall>s. \<exists>e s'. fn s = (Inl e, s') \<and> isQuotaError e"
  shows "\<exists>e1 s1 e2 s2 e3 s3.
           fn s = (Inl e1, s1) \<and> fn s1 = (Inl e2, s2) \<and> fn s2 = (Inl e3, s3) \<and>
           withRetry fn 3 s = (Inl e3, [Invoke, Delay 1000, Invoke, Delay 2000, Invoke], s3) \<and>
           invocations (fst (snd (withRetry fn 3 s))) = 3 \<and>
           total_delay (fst (snd (withRetry fn 3 s))) = 3000"
proof -
  from assms obtain e1 s1 where 1: "fn s = (Inl e1, s1)" "isQuotaError e1" by blast
  from assms obtain e2 s2 where 2: "fn s1 = (Inl e2, s2)" "isQuotaError e2" by blast
  from assms obtain e3 s3 where 3: "fn s2 = (Inl e3, s3)" "isQuotaError e3" by blast
  have "withRetry fn 3 s = (Inl e3, [Invoke, Delay 1000, Invoke, Delay 2000, Invoke], s3)"
    using withRetry_quota_thrice[of fn s e1 s1 e2 s2 e3 s3] 1 2 3(1) by simp
  then show ?thesis
    using 1 2 3
    by (intro exI[of _ e1] exI[of _ s1] exI[of _ e2] exI[of _ s2] exI[of _ e3] exI[of _ s3]) simp
qed

text \<open>
  An operation that always fails with status 429, started with its call counter at \<open>0\<close>.
\<close>

theorem withRetry_ceiling_witness:
  "withRetry (always_fail too_many_requests) 3 0 =
     (Inl too_many_requests, [Invoke, Delay 1000, Invoke, Delay 2000, Invoke], 3)"
proof -
  have "\<forall>s. \<exists>e s'. always_fail too_many_requests s = (Inl e, s') \<and> isQuotaError e"
    by (simp add: always_fail_def isQuotaError_too_many_requests)
  from withRetry_ceiling[OF this, of 0] obtain e1 s1 e2 s2 e3 s3 where
    c: "always_fail too_many_requests 0 = (Inl e1, s1)"
      "always_fail too_many_requests s1 = (Inl e2, s2)"
      "always_fail too_many_requests s2 = (Inl e3, s3)"
      "withRetry (always_fail too_many_requests) 3 0 =
         (Inl e3, [Invoke, Delay 1000, Invoke, Delay 2000, Invoke], s3)"
    by blast
  from c(1-3) have "e3 = too_many_requests \<and> s3 = 3"
    by (auto simp: always_fail_def)
  with c(4) show ?thesis by simp
qed

subsection \<open>Short circuit\<close>

text \<open>
  Claim C4. If the first call of the operation fails with an error that \<open>isQuotaError\<close>
  rejects, \<open>withRetry\<close> (with at least one attempt allowed) calls the operation once,
  inserts no delay and throws that error.
\<close>

theorem withRetry_short_circuit:
  assumes "fn s = (Inl e, s')" and "\<not> isQuotaError e" and "0 < maxRetries"
  shows "withRetry fn maxRetries s = (Inl e, [Invoke], s')"
  using withRetry_fatal_first[of fn s e s' maxRetries] assms by simp

text \<open>
  An operation that always fails with the error of a failed parse: one call, no delay.
\<close>

theorem withRetry_short_circuit_witness:
  "withRetry (always_fail parse_error) 3 0 = (Inl parse_error, [Invoke], 1)"
  using withRetry_short_circuit[of "always_fail parse_error" 0 parse_error 1 3]
  by (simp add: always_fail_def not_isQuotaError_parse_error)

subsection \<open>Classification\<close>

text \<open>
  Claim C3, as the code has it. With more than one attempt allowed, a first failure is
  thrown at once, after a single call, exactly when the error is not classified as a quota
  error: the status taken from the error (the first truthy value among \<^verbatim>\<open>err.status\<close>,
  \<^verbatim>\<open>err.error.status\<close> and \<^verbatim>\<open>err.error.code\<close>, else 429 when the message contains
  \<^verbatim>\<open>429\<close>, else \<^verbatim>\<open>null\<close>) is neither the number 429 nor the string
  \<^verbatim>\<open>RESOURCE_EXHAUSTED\<close>, and the message (a thrown string being its own message) does
  not contain \<^verbatim>\<open>RESOURCE_EXHAUSTED\<close>. In every other case the operation is called again.
\<close>

theorem withRetry_classification:
  assumes "fn s = (Inl e, s')" and "1 < maxRetries"
  shows "(withRetry fn maxRetries s = (Inl e, [Invoke], s')) =
           (\<not> (retry_status e = JNum 429 \<or> retry_status e = JStr ''RESOURCE_EXHAUSTED'' \<or>
               str_includes (retry_message e) ''RESOURCE_EXHAUSTED''))"
proof (cases "isQuotaError e")
  case True
  have "withRetry fn maxRetries s =
          withRetry_loop fn maxRetries 1 e [Invoke, Delay 1000] s'"
    unfolding withRetry_def using withRetry_loop_again[of 0 maxRetries fn s e s'] assms True by simp
  moreover obtain ext where
    "fst (snd (withRetry_loop fn maxRetries 1 e [Invoke, Delay 1000] s')) = [Invoke, Delay 1000] @ ext"
    using withRetry_loop_trace[of fn maxRetries 1 e "[Invoke, Delay 1000]" s'] by blast
  ultimately have "withRetry fn maxRetries s \<noteq> (Inl e, [Invoke], s')" by auto
  then show ?thesis using True by (simp add: isQuotaError_def Let_def)
next
  case False
  then have "withRetry fn maxRetries s = (Inl e, [Invoke], s')"
    using withRetry_fatal_first[of fn s e s' maxRetries] assms by simp
  then show ?thesis using False by (simp add: isQuotaError_def Let_def)
qed

text \<open>
  An error with status 429 is not thrown after the first call.
\<close>

theorem withRetry_classification_witness:
  "withRetry (always_fail too_many_requests) 3 0 \<noteq> (Inl too_many_requests, [Invoke], 1) \<and>
   retry_status too_many_requests = JNum 429"
proof -
  have "always_fail too_many_requests 0 = (Inl too_many_requests, 1)" "(1 :: int) < 3"
    by (simp_all add: always_fail_def)
  from withRetry_classification[of "always_fail too_many_requests" 0 too_many_requests 1 3, OF this]
  show ?thesis
    by (simp add: retry_status_def js_or_def too_many_requests_def)
qed

text \<open>
  Claim C3 as stated fails for an error whose status is the string
  \<^verbatim>\<open>RESOURCE_EXHAUSTED\<close>: its status is not 429 and its message does not contain the
  marker, yet it is retried to the third attempt.
\<close>

theorem withRetry_classification_counterexample:
  "withRetry (always_fail status_text_error) 3 0 =
     (Inl status_text_error, [Invoke, Delay 1000, Invoke, Delay 2000, Invoke], 3) \<and>
   err_status status_text_error \<noteq> JNum 429 \<and>
   retry_status status_text_error \<noteq> JNum 429 \<and>
   \<not> str_includes (retry_message status_text_error) ''RESOURCE_EXHAUSTED''"
proof -
  have "withRetry (always_fail status_text_error) 3 0 =
     (Inl status_text_error, [Invoke, Delay 1000, Invoke, Delay 2000, Invoke], 3)"
    using withRetry_quota_thrice[of "always_fail status_text_error" 0 status_text_error 1
        status_text_error 2 status_text_error 3]
    by (simp add: always_fail_def isQuotaError_status_text_error)
  moreover have "err_status status_text_error \<noteq> JNum 429"
    "retry_status status_text_error \<noteq> JNum 429"
    "\<not> str_includes (retry_message status_text_error) ''RESOURCE_EXHAUSTED''"
    by (simp_all add: retry_status_def retry_message_def js_or_def status_text_error_def)
  ultimately show ?thesis by simp
qed

section \<open>Properties of the image analysis\<close>

lemma analyze_attempt_unparsable:
  assumes "generateContent s = (Inr r, s')"
    and "response_text r = None \<or> (\<exists>t. response_text r = Some t \<and> JSON_parse (trim t) = None)"
  shows "analyze_attempt trim JSON_parse generateContent s = (Inl parse_error, s')"
  using assms by (auto simp: analyze_attempt_def)

lemma analyze_attempt_parsed:
  assumes "generateContent s = (Inr r, s')" "response_text r = Some t" "JSON_parse (trim t) = Some v"
  shows "analyze_attempt trim JSON_parse generateContent s = (Inr v, s')"
  using assms by (simp add: analyze_attempt_def)

lemma analyze_attempt_rejected:
  assumes "generateContent s = (Inl e, s')"
  shows "analyze_attempt trim JSON_parse generateContent s = (Inl e, s')"
  using assms by (simp add: analyze_attempt_def)

text \<open>
  Claim C9, as the code has it. A response whose text is absent or is rejected by
  \<^verbatim>\<open>JSON.parse\<close> makes \<open>analyzeMathProblem\<close> throw \<open>parse_error\<close> after a single call of
  the remote operation, with no delay; when it follows a first call that failed with a
  quota error, it is thrown after that second call. A text that \<^verbatim>\<open>JSON.parse\<close> accepts
  is returned as the result after a single call, whatever its shape: the schema is not
  checked. When every call fails with status 429 the remote operation is called three
  times in all. \<open>parse_error\<close> is not a quota error and differs from an error with
  status 429.
\<close>

theorem analyzeMathProblem_malformed:
  "(generateContent s = (Inr r, s') \<and>
      (response_text r = None \<or> (\<exists>t. response_text r = Some t \<and> JSON_parse (trim t) = None)) \<longrightarrow>
      analyzeMathProblem trim JSON_parse generateContent s = (Inl parse_error, [Invoke], s')) \<and>
   (generateContent s = (Inl e1, s1) \<and> isQuotaError e1 \<and> generateContent s1 = (Inr r, s') \<and>
      (response_text r = None \<or> (\<exists>t. response_text r = Some t \<and> JSON_parse (trim t) = None)) \<longrightarrow>
      analyzeMathProblem trim JSON_parse generateContent s =
        (Inl parse_error, [Invoke, Delay 1000, Invoke], s')) \<and>
   (generateContent s = (Inr r, s') \<and> response_text r = Some t \<and> JSON_parse (trim t) = Some v \<longrightarrow>
      analyzeMathProblem trim JSON_parse generateContent s = (Inr v, [Invoke], s')) \<and>
   ((\<forall>s. \<exists>e s'. generateContent s = (Inl e, s') \<and> err_status e = JNum 429) \<longrightarrow>
      (\<exists>e s'. analyzeMathProblem trim JSON_parse generateContent s =
                 (Inl e, [Invoke, Delay 1000, Invoke, Delay 2000, Invoke], s') \<and>
               err_status e = JNum 429)) \<and>
   \<not> isQuotaError parse_error \<and> parse_error \<noteq> too_many_requests"
proof (intro conjI impI)
  assume "generateContent s = (Inr r, s') \<and>
      (response_text r = None \<or> (\<exists>t. response_text r = Some t \<and> JSON_parse (trim t) = None))"
  then have "analyze_attempt trim JSON_parse generateContent s = (Inl parse_error, s')"
    using analyze_attempt_unparsable[where generateContent = generateContent and s = s and r = r and s' = s'
        and JSON_parse = JSON_parse and trim = trim] by simp
  then show "analyzeMathProblem trim JSON_parse generateContent s = (Inl parse_error, [Invoke], s')"
    unfolding analyzeMathProblem_def
    using withRetry_fatal_first[of "analyze_attempt trim JSON_parse generateContent" s parse_error s' 3]
    by (simp add: not_isQuotaError_parse_error)
next
  let ?fn = "analyze_attempt trim JSON_parse generateContent"
  assume a: "generateContent s = (Inl e1, s1) \<and> isQuotaError e1 \<and> generateContent s1 = (Inr r, s') \<and>
      (response_text r = None \<or> (\<exists>t. response_text r = Some t \<and> JSON_parse (trim t) = None))"
  then have first: "?fn s = (Inl e1, s1)"
    using analyze_attempt_rejected[where generateContent = generateContent and s = s and e = e1 and s' = s1
        and JSON_parse = JSON_parse and trim = trim] by simp
  from a have second: "?fn s1 = (Inl parse_error, s')"
    using analyze_attempt_unparsable[where generateContent = generateContent and s = s1 and r = r and s' = s'
        and JSON_parse = JSON_parse and trim = trim] by simp
  have "withRetry ?fn 3 s = withRetry_loop ?fn 3 1 e1 [Invoke, Delay 1000] s1"
    unfolding withRetry_def using withRetry_loop_again[of 0 3 ?fn s e1 s1] first a by simp
  also have "\<dots> = (Inl parse_error, [Invoke, Delay 1000, Invoke], s')"
    using withRetry_loop_fatal[of 1 3 ?fn s1 parse_error s' e1 "[Invoke, Delay 1000]"] second
    by (simp add: not_isQuotaError_parse_error)
  finally show "analyzeMathProblem trim JSON_parse generateContent s =
      (Inl parse_error, [Invoke, Delay 1000, Invoke], s')"
    by (simp add: analyzeMathProblem_def)
next
  assume "generateContent s = (Inr r, s') \<and> response_text r = Some t \<and> JSON_parse (trim t) = Some v"
  then have "analyze_attempt trim JSON_parse generateContent s = (Inr v, s')"
    using analyze_attempt_parsed[where generateContent = generateContent and s = s and r = r and s' = s'
        and t = t and JSON_parse = JSON_parse and v = v and trim = trim] by simp
  then show "analyzeMathProblem trim JSON_parse generateContent s = (Inr v, [Invoke], s')"
    unfolding analyzeMathProblem_def
    using withRetry_success_first[of "analyze_attempt trim JSON_parse generateContent" s v s' 3]
    by simp
next
  assume a: "\<forall>s. \<exists>e s'. generateContent s = (Inl e, s') \<and> err_status e = JNum 429"
  let ?fn = "analyze_attempt trim JSON_parse generateContent"
  from a obtain e1 s1 where 1: "generateContent s = (Inl e1, s1)" "err_status e1 = JNum 429" by blast
  from a obtain e2 s2 where 2: "generateContent s1 = (Inl e2, s2)" "err_status e2 = JNum 429" by blast
  from a obtain e3 s3 where 3: "generateContent s2 = (Inl e3, s3)" "err_status e3 = JNum 429" by blast
  have "withRetry ?fn 3 s = (Inl e3, [Invoke, Delay 1000, Invoke, Delay 2000, Invoke], s3)"
    using withRetry_quota_thrice[of ?fn s e1 s1 e2 s2 e3 s3] 1 2 3
    by (simp add: analyze_attempt_rejected status_429_isQuotaError)
  then show "\<exists>e s'. analyzeMathProblem trim JSON_parse generateContent s =
                 (Inl e, [Invoke, Delay 1000, Invoke, Delay 2000, Invoke], s') \<and>
               err_status e = JNum 429"
    using 3(2) by (auto simp: analyzeMathProblem_def)
next
  show "\<not> isQuotaError parse_error" by (rule not_isQuotaError_parse_error)
next
  show "parse_error \<noteq> too_many_requests" by (simp add: parse_error_def too_many_requests_def)
qed

text \<open>
  The body \<^verbatim>\<open>not json\<close> is answered by \<open>parse_error\<close> after one call; a service that
  always fails with status 429 is called three times.
\<close>

theorem analyzeMathProblem_malformed_witness:
  "analyzeMathProblem trim_ascii JSON_parse_sample (always_reply ''not json'') 0 =
     (Inl parse_error, [Invoke], 1) \<and>
   (\<exists>e s'. analyzeMathProblem trim_ascii JSON_parse_sample (always_reject too_many_requests) 0 =
              (Inl e, [Invoke, Delay 1000, Invoke, Delay 2000, Invoke], s') \<and>
            err_status e = JNum 429)"
proof -
  have "JSON_parse_sample (trim_ascii ''not json'') = None"
    by (simp add: JSON_parse_sample_def trim_ascii_def is_space_def)
  then have "analyzeMathProblem trim_ascii JSON_parse_sample (always_reply ''not json'') 0 =
     (Inl parse_error, [Invoke], 1)"
    using analyzeMathProblem_malformed[where generateContent = "always_reply ''not json''"
        and s = 0 and r = "\<lparr>response_text = Some ''not json''\<rparr>" and s' = 1
        and JSON_parse = JSON_parse_sample and trim = trim_ascii]
    by (simp add: always_reply_def)
  moreover have "\<forall>s. \<exists>e s'. always_reject too_many_requests s = (Inl e, s') \<and> err_status e = JNum 429"
    by (simp add: always_reject_def too_many_requests_def)
  then have "\<exists>e s'. analyzeMathProblem trim_ascii JSON_parse_sample (always_reject too_many_requests) 0 =
              (Inl e, [Invoke, Delay 1000, Invoke, Delay 2000, Invoke], s') \<and>
            err_status e = JNum 429"
    using analyzeMathProblem_malformed[where generateContent = "always_reject too_many_requests"
        and s = 0 and JSON_parse = JSON_parse_sample and trim = trim_ascii]
    by blast
  ultimately show ?thesis by blast
qed

text \<open>
  Claim C9 as stated fails for a body that is JSON but does not match the schema: the
  body \<^verbatim>\<open>{}\<close> lacks every required property and is returned as the analysis, no error
  being thrown.
\<close>

theorem analyzeMathProblem_malformed_counterexample:
  "analyzeMathProblem trim_ascii JSON_parse_sample (always_reply ''{}'') 0 = (Inr (JObject []), [Invoke], 1) \<and>
   \<not> matches_schema (JObject [])"
proof -
  have "JSON_parse_sample (trim_ascii ''{}'') = Some (JObject [])"
    by (simp add: JSON_parse_sample_def trim_ascii_def is_space_def)
  then have "analyze_attempt trim_ascii JSON_parse_sample (always_reply ''{}'') 0 = (Inr (JObject []), 1)"
    by (simp add: analyze_attempt_def always_reply_def)
  then have "analyzeMathProblem trim_ascii JSON_parse_sample (always_reply ''{}'') 0 =
      (Inr (JObject []), [Invoke], 1)"
    unfolding analyzeMathProblem_def
    using withRetry_success_first[of "analyze_attempt trim_ascii JSON_parse_sample (always_reply ''{}'')" 0
        "JObject []" 1 3]
    by simp
  moreover have "\<not> matches_schema (JObject [])"
    by (simp add: matches_schema_def has_string_def)
  ultimately show ?thesis by simp
qed

section \<open>Properties of the live session\<close>

subsection \<open>Stopping the scheduled sources\<close>

lemma try_stop_eq:
  "(case node_stop h s of Inl e \<Rightarrow> s | Inr s' \<Rightarrow> s') =
     (if h < length (nodes s) \<and> started_at (nodes s ! h) \<noteq> None
      then s\<lparr>nodes := (nodes s)[h := (nodes s ! h)\<lparr>stopped := True\<rparr>]\<rparr> else s)"
  by (auto simp: node_stop_def)

lemma stop_all_refs:
  "liveSessionRef (stop_all hs s) = liveSessionRef s \<and>
   liveStreamRef (stop_all hs s) = liveStreamRef s \<and>
   liveNextStartTimeRef (stop_all hs s) = liveNextStartTimeRef s \<and>
   liveSourcesRef (stop_all hs s) = liveSourcesRef s \<and>
   isLiveMode (stop_all hs s) = isLiveMode s \<and>
   stopped_streams (stop_all hs s) = stopped_streams s \<and>
   closed_sessions (stop_all hs s) = closed_sessions s \<and>
   broken_sessions (stop_all hs s) = broken_sessions s"
  by (induction hs arbitrary: s) (simp_all add: try_stop_eq)

lemma stop_all_length: "length (nodes (stop_all hs s)) = length (nodes s)"
  by (induction hs arbitrary: s) (simp_all add: try_stop_eq)

lemma stop_all_node:
  "k < length (nodes s) \<Longrightarrow>
   started_at (nodes (stop_all hs s) ! k) = started_at (nodes s ! k) \<and>
   node_duration (nodes (stop_all hs s) ! k) = node_duration (nodes s ! k) \<and>
   stopped (nodes (stop_all hs s) ! k) =
     (stopped (nodes s ! k) \<or> (k \<in> set hs \<and> started_at (nodes s ! k) \<noteq> None))"
proof (induction hs arbitrary: s)
  case Nil
  then show ?case by simp
next
  case (Cons h hs)
  let ?s = "case node_stop h s of Inl e \<Rightarrow> s | Inr s' \<Rightarrow> s'"
  have len: "k < length (nodes ?s)" using Cons.prems by (simp add: try_stop_eq)
  have step: "started_at (nodes ?s ! k) = started_at (nodes s ! k)"
    "node_duration (nodes ?s ! k) = node_duration (nodes s ! k)"
    "stopped (nodes ?s ! k) = (stopped (nodes s ! k) \<or> (k = h \<and> started_at (nodes s ! k) \<noteq> None))"
    using Cons.prems by (auto simp: try_stop_eq nth_list_update)
  from Cons.IH[OF len] step show ?case by auto
qed

lemma stop_all_stops:
  assumes "list_all (\<lambda>h. h < length (nodes s) \<and> started_at (nodes s ! h) \<noteq> None) hs"
  shows "list_all (\<lambda>h. stopped (nodes (stop_all hs s) ! h)) hs"
  using assms by (simp add: list_all_iff stop_all_node)

subsection \<open>Scheduling one chunk\<close>

lemma decode_chunk:
  assumes "even (length data)" "2 \<le> length data"
  shows "\<exists>buf. decodeAudioData (fresh_array data) outputAudioCtx 24000 1 = Inr buf \<and>
           duration buf = chunk_duration data"
proof -
  have "1 \<le> length data div 2" using assms by presburger
  with decodeAudioData_ok[of data 1 24000 "fresh_array data" outputAudioCtx] assms(1) obtain buf where
    "decodeAudioData (fresh_array data) outputAudioCtx 24000 1 = Inr buf"
    "frames buf = length data div 2 div 1"
    "sampleRate buf = 24000"
    by (auto simp: fresh_array_def outputAudioCtx_def)
  then show ?thesis by (auto simp: duration_def chunk_duration_def)
qed

lemma schedule_chunk:
  assumes "even (length data)" "2 \<le> length data" "0 \<le> max (liveNextStartTimeRef s) t"
  shows "onmessage t (audio_message data) s =
     (None,
      s\<lparr>liveNextStartTimeRef := max (liveNextStartTimeRef s) t + chunk_duration data,
        liveSourcesRef := set_add (liveSourcesRef s) (length (nodes s)),
        nodes := nodes s @ [\<lparr>node_duration = chunk_duration data,
                              started_at = Some (max (liveNextStartTimeRef s) t),
                              stopped = False\<rparr>]\<rparr>)"
proof -
  from decode_chunk[OF assms(1,2)] obtain buf where
    buf: "decodeAudioData (fresh_array data) outputAudioCtx 24000 1 = Inr buf" "duration buf = chunk_duration data" by blast
  have "\<not> max (liveNextStartTimeRef s) t < 0"
    using assms(3) by (auto simp: max_def split: if_splits)
  then show ?thesis
    using buf
    by (simp add: onmessage_def audio_message_def createBufferSource_def node_start_def
        handle_interrupted_def Let_def)
qed

subsection \<open>Every handle in the set was started\<close>

lemma sources_started_init: "sources_started live_init"
  by (simp add: sources_started_def live_init_def)

lemma sources_started_handle_interrupted:
  "sources_started s \<Longrightarrow> sources_started (handle_interrupted m s)"
  by (simp add: handle_interrupted_def sources_started_def)

lemma sources_started_onmessage:
  assumes "sources_started s"
  shows "sources_started (snd (onmessage t m s))"
proof (cases "audio m")
  case None
  then show ?thesis
    using assms by (simp add: onmessage_def sources_started_handle_interrupted)
next
  case (Some data)
  let ?s1 = "s\<lparr>liveNextStartTimeRef := max (liveNextStartTimeRef s) t\<rparr>"
  have s1: "sources_started ?s1" using assms by (simp add: sources_started_def)
  show ?thesis
  proof (cases "decodeAudioData (fresh_array data) outputAudioCtx 24000 1")
    case (Inl e)
    then show ?thesis using Some s1 by (simp add: onmessage_def Let_def)
  next
    case (Inr buf)
    let ?h = "length (nodes s)"
    let ?s2 = "?s1\<lparr>nodes := nodes ?s1 @ [\<lparr>node_duration = duration buf, started_at = None, stopped = False\<rparr>]\<rparr>"
    have s2: "sources_started ?s2"
      using assms by (auto simp: sources_started_def list_all_iff nth_append)
    show ?thesis
    proof (cases "node_start ?h (liveNextStartTimeRef ?s2) ?s2")
      case (Inl e)
      then show ?thesis
        using Some Inr s2 by (simp add: onmessage_def Let_def createBufferSource_def)
    next
      case start: (Inr s3)
      then have s3: "s3 = ?s2\<lparr>nodes := (nodes ?s2)[?h := (nodes ?s2 ! ?h)\<lparr>started_at := Some (liveNextStartTimeRef ?s2)\<rparr>]\<rparr>"
        by (auto simp: node_start_def split: if_splits)
      let ?s4 = "s3\<lparr>liveNextStartTimeRef := liveNextStartTimeRef s3 + duration buf,
                     liveSourcesRef := set_add (liveSourcesRef s3) ?h\<rparr>"
      have n3: "liveSourcesRef s3 = liveSourcesRef s" "length (nodes s3) = Suc ?h"
        "started_at (nodes s3 ! ?h) \<noteq> None"
        "\<forall>k<?h. nodes s3 ! k = nodes s ! k"
        by (simp_all add: s3 nth_append)
      have "sources_started ?s4"
        using assms n3
        by (auto simp: sources_started_def list_all_iff set_add_def)
      then show ?thesis
        using Some Inr start
        by (simp add: onmessage_def Let_def createBufferSource_def sources_started_handle_interrupted)
    qed
  qed
qed

lemma sources_started_ended: "sources_started s \<Longrightarrow> sources_started (ended h s)"
  by (auto simp: sources_started_def ended_def list_all_iff)

lemma sources_started_stopLiveMentor: "stopLiveMentor s = Inr s' \<Longrightarrow> sources_started s'"
  by (auto simp: stopLiveMentor_def Let_def sources_started_def)

lemma sources_started_startLiveMentor:
  "sources_started s \<Longrightarrow> sources_started (startLiveMentor a i g c s)"
  by (auto simp: startLiveMentor_def Let_def sources_started_def stop_tracks_def start_failed_def
      split: option.splits sum.splits)

subsection \<open>The sample states\<close>

lemma one_chunk_scheduled_eq:
  "one_chunk_scheduled =
     live_init\<lparr>liveNextStartTimeRef := 1 / 24000, liveSourcesRef := [0],
       nodes := [\<lparr>node_duration = 1 / 24000, started_at = Some 0, stopped = False\<rparr>]\<rparr>"
  unfolding one_chunk_scheduled_def
  using schedule_chunk[of "[0x00, 0x40]" live_init 0]
  by (simp add: live_init_def chunk_duration_def set_add_def)

lemma interrupt_one_chunk:
  "onmessage 5 interruption one_chunk_scheduled =
     (None, live_init\<lparr>nodes := [\<lparr>node_duration = 1 / 24000, started_at = Some 0, stopped = True\<rparr>]\<rparr>)"
  by (simp add: one_chunk_scheduled_eq onmessage_def interruption_def handle_interrupted_def
      node_stop_def live_init_def)

lemma session_running_eq:
  "session_running =
     live_init\<lparr>liveSessionRef := Some 0, liveStreamRef := Some 0,
       liveNextStartTimeRef := 1 / 24000, liveSourcesRef := [0], isLiveMode := True,
       nodes := [\<lparr>node_duration = 1 / 24000, started_at = Some 0, stopped = False\<rparr>]\<rparr>"
  unfolding session_running_def
  using schedule_chunk[of "[0x00, 0x40]" "startLiveMentor True False (Inr 0) (Inr 0) live_init" 0]
  by (simp add: live_init_def chunk_duration_def set_add_def startLiveMentor_def)

subsection \<open>Gapless playback\<close>

text \<open>
  Three decodable chunks arriving while the clock has not passed the end of what is
  scheduled start back to back: the first at the later of the pointer and the clock, each
  of the others where the one before it ends.
\<close>

lemma playback_back_to_back:
  assumes "even (length b1)" "2 \<le> length b1"
    and "even (length b2)" "2 \<le> length b2"
    and "even (length b3)" "2 \<le> length b3"
    and "m = max (liveNextStartTimeRef s) t0" and "0 \<le> m"
    and "t1 \<le> m + chunk_duration b1"
    and "t2 \<le> m + chunk_duration b1 + chunk_duration b2"
  shows "\<exists>s1 s2 s3.
           onmessage t0 (audio_message b1) s = (None, s1) \<and>
           onmessage t1 (audio_message b2) s1 = (None, s2) \<and>
           onmessage t2 (audio_message b3) s2 = (None, s3) \<and>
           nodes s3 = nodes s @
             [\<lparr>node_duration = chunk_duration b1, started_at = Some m, stopped = False\<rparr>,
              \<lparr>node_duration = chunk_duration b2, started_at = Some (m + chunk_duration b1),
                stopped = False\<rparr>,
              \<lparr>node_duration = chunk_duration b3,
                started_at = Some (m + chunk_duration b1 + chunk_duration b2), stopped = False\<rparr>] \<and>
           liveNextStartTimeRef s3 =
             m + chunk_duration b1 + chunk_duration b2 + chunk_duration b3"
proof -
  have d: "0 \<le> chunk_duration b1" "0 \<le> chunk_duration b2"
    by (simp_all add: chunk_duration_def)
  obtain s1 where s1: "onmessage t0 (audio_message b1) s = (None, s1)"
    "liveNextStartTimeRef s1 = m + chunk_duration b1"
    "nodes s1 = nodes s @ [\<lparr>node_duration = chunk_duration b1, started_at = Some m, stopped = False\<rparr>]"
    using schedule_chunk[of b1 s t0] assms(1,2,7,8) by simp
  obtain s2 where s2: "onmessage t1 (audio_message b2) s1 = (None, s2)"
    "liveNextStartTimeRef s2 = m + chunk_duration b1 + chunk_duration b2"
    "nodes s2 = nodes s1 @ [\<lparr>node_duration = chunk_duration b2,
        started_at = Some (m + chunk_duration b1), stopped = False\<rparr>]"
    using schedule_chunk[of b2 s1 t1] assms(3,4,8,9) s1(2) d by (simp add: max_def)
  obtain s3 where s3: "onmessage t2 (audio_message b3) s2 = (None, s3)"
    "liveNextStartTimeRef s3 = m + chunk_duration b1 + chunk_duration b2 + chunk_duration b3"
    "nodes s3 = nodes s2 @ [\<lparr>node_duration = chunk_duration b3,
        started_at = Some (m + chunk_duration b1 + chunk_duration b2), stopped = False\<rparr>]"
    using schedule_chunk[of b3 s2 t2] assms(5,6,8,10) s2(2) d by (simp add: max_def)
  show ?thesis
    using s1 s2 s3 by (intro exI[of _ s1] exI[of _ s2] exI[of _ s3]) simp
qed

lemma restarted_session_eq:
  "restarted_session =
     live_init\<lparr>liveSessionRef := Some 1, liveStreamRef := Some 1,
       liveNextStartTimeRef := 5 + 1 / 24000, isLiveMode := True,
       nodes := [\<lparr>node_duration = 1 / 24000, started_at = Some 5, stopped = True\<rparr>],
       stopped_streams := {0}, closed_sessions := {0}\<rparr>"
proof -
  let ?a = "startLiveMentor True False (Inr 0) (Inr 0) live_init"
  have b: "snd (onmessage 5 (audio_message [0x00, 0x40]) ?a) =
      live_init\<lparr>liveSessionRef := Some 0, liveStreamRef := Some 0, isLiveMode := True,
        liveNextStartTimeRef := 5 + 1 / 24000, liveSourcesRef := [0],
        nodes := [\<lparr>node_duration = 1 / 24000, started_at = Some 5, stopped = False\<rparr>]\<rparr>"
    using schedule_chunk[of "[0x00, 0x40]" ?a 5]
    by (simp add: startLiveMentor_def live_init_def chunk_duration_def set_add_def)
  show ?thesis
    unfolding restarted_session_def b
    by (simp add: stopLiveMentor_def session_close_def stop_tracks_def node_stop_def
        startLiveMentor_def live_init_def)
qed

text \<open>
  Claim C5 on the code. \<open>stopLiveMentor\<close> leaves \<open>liveNextStartTimeRef\<close> as it is, and the
  next \<open>startLiveMentor\<close> makes a new output context whose clock starts again at \<open>0\<close>. In a
  session that played one chunk at clock \<open>5\<close>, was stopped and was started again, the
  pointer still reads \<open>5 + 1/24000\<close>, and the first chunk of the new session, arriving at
  clock \<open>0\<close>, is started at \<open>5 + 1/24000\<close> and not at the clock.
\<close>

theorem playback_restart_stale_pointer:
  "liveNextStartTimeRef restarted_session = 5 + 1 / 24000 \<and>
   liveSourcesRef restarted_session = [] \<and>
   onmessage 0 (audio_message [0x00, 0x40]) restarted_session =
     (None,
      restarted_session
        \<lparr>liveNextStartTimeRef := 5 + 1 / 24000 + 1 / 24000, liveSourcesRef := [1],
         nodes := nodes restarted_session @
           [\<lparr>node_duration = 1 / 24000, started_at = Some (5 + 1 / 24000), stopped = False\<rparr>]\<rparr>)"
proof -
  have p: "liveNextStartTimeRef restarted_session = 5 + 1 / 24000"
    "liveSourcesRef restarted_session = []" "length (nodes restarted_session) = 1"
    by (simp_all add: restarted_session_eq live_init_def)
  have "onmessage 0 (audio_message [0x00, 0x40]) restarted_session =
     (None,
      restarted_session
        \<lparr>liveNextStartTimeRef := max (liveNextStartTimeRef restarted_session) 0 +
            chunk_duration [0x00, 0x40],
         liveSourcesRef := set_add (liveSourcesRef restarted_session) (length (nodes restarted_session)),
         nodes := nodes restarted_session @
           [\<lparr>node_duration = chunk_duration [0x00, 0x40],
              started_at = Some (max (liveNextStartTimeRef restarted_session) 0),
              stopped = False\<rparr>]\<rparr>)"
    by (rule schedule_chunk) (simp_all add: p)
  then show ?thesis
    by (simp add: p chunk_duration_def set_add_def)
qed

subsection \<open>Interruption\<close>

lemma onmessage_interrupted:
  assumes "interrupted m" and "onmessage t m s = (None, s1)"
  shows "\<exists>hs s0. s1 = (stop_all hs s0)\<lparr>liveSourcesRef := [], liveNextStartTimeRef := 0\<rparr> \<and>
           set (liveSourcesRef s) \<subseteq> set hs \<and> length (nodes s) \<le> length (nodes s0) \<and>
           (\<forall>k<length (nodes s). nodes s0 ! k = nodes s ! k)"
proof (cases "audio m")
  case None
  then have "s1 = (stop_all (liveSourcesRef s) s)\<lparr>liveSourcesRef := [], liveNextStartTimeRef := 0\<rparr>"
    using assms by (simp add: onmessage_def handle_interrupted_def)
  then show ?thesis by (intro exI[of _ "liveSourcesRef s"] exI[of _ s]) simp
next
  case (Some data)
  let ?s1 = "s\<lparr>liveNextStartTimeRef := max (liveNextStartTimeRef s) t\<rparr>"
  from Some assms(2) obtain buf where buf: "decodeAudioData (fresh_array data) outputAudioCtx 24000 1 = Inr buf"
    by (cases "decodeAudioData (fresh_array data) outputAudioCtx 24000 1") (auto simp: onmessage_def Let_def)
  let ?s2 = "?s1\<lparr>nodes := nodes ?s1 @ [\<lparr>node_duration = duration buf, started_at = None, stopped = False\<rparr>]\<rparr>"
  let ?h = "length (nodes s)"
  from Some assms(2) buf obtain s3 where s3: "node_start ?h (liveNextStartTimeRef ?s2) ?s2 = Inr s3"
    by (cases "node_start ?h (liveNextStartTimeRef ?s2) ?s2")
       (auto simp: onmessage_def Let_def createBufferSource_def)
  let ?s0 = "s3\<lparr>liveNextStartTimeRef := liveNextStartTimeRef s3 + duration buf,
                 liveSourcesRef := set_add (liveSourcesRef s3) ?h\<rparr>"
  have s1: "s1 = (stop_all (liveSourcesRef ?s0) ?s0)\<lparr>liveSourcesRef := [], liveNextStartTimeRef := 0\<rparr>"
    using Some assms buf s3
    by (simp add: onmessage_def Let_def createBufferSource_def handle_interrupted_def)
  have s3_eq: "s3 = ?s2\<lparr>nodes := (nodes ?s2)[?h := (nodes ?s2 ! ?h)\<lparr>started_at := Some (liveNextStartTimeRef ?s2)\<rparr>]\<rparr>"
    using s3 by (auto simp: node_start_def split: if_splits)
  have "set (liveSourcesRef s) \<subseteq> set (liveSourcesRef ?s0)"
    by (subst s3_eq) (auto simp: set_add_def)
  moreover have "length (nodes s) \<le> length (nodes ?s0)"
    by (subst s3_eq) simp
  moreover have "\<forall>k<length (nodes s). nodes ?s0 ! k = nodes s ! k"
    by (subst s3_eq) (simp add: nth_append)
  ultimately show ?thesis using s1 by blast
qed

text \<open>
  Claim C6. In a state where every handle of the set was started, let a message with
  the interruption flag be handled to its end. Afterwards the set is empty, every handle
  that was in the set is stopped, and the next decodable chunk, arriving when the clock
  reads \<open>t'\<close>, is started at \<open>t'\<close> itself, whatever \<open>liveNextStartTimeRef\<close> was before the
  interruption.
\<close>

theorem interruption_reset:
  assumes "sources_started s" and "interrupted m" and "onmessage t m s = (None, s1)"
    and "even (length data)" and "2 \<le> length data" and "0 \<le> t'"
  shows "liveSourcesRef s1 = [] \<and>
         list_all (\<lambda>h. stopped (nodes s1 ! h)) (liveSourcesRef s) \<and>
         onmessage t' (audio_message data) s1 =
           (None,
            s1\<lparr>liveNextStartTimeRef := t' + chunk_duration data,
               liveSourcesRef := [length (nodes s1)],
               nodes := nodes s1 @ [\<lparr>node_duration = chunk_duration data,
                                      started_at = Some t', stopped = False\<rparr>]\<rparr>)"
proof -
  from onmessage_interrupted[OF assms(2,3)] obtain hs s0 where
    s1: "s1 = (stop_all hs s0)\<lparr>liveSourcesRef := [], liveNextStartTimeRef := 0\<rparr>"
    and hs: "set (liveSourcesRef s) \<subseteq> set hs"
    and len: "length (nodes s) \<le> length (nodes s0)"
    and same: "\<forall>k<length (nodes s). nodes s0 ! k = nodes s ! k"
    by blast
  have empty: "liveSourcesRef s1 = []" and zero: "liveNextStartTimeRef s1 = 0"
    by (simp_all add: s1)
  have "stopped (nodes s1 ! h)" if h: "h \<in> set (liveSourcesRef s)" for h
  proof -
    from assms(1) h have v: "h < length (nodes s)" "started_at (nodes s ! h) \<noteq> None"
      by (auto simp: sources_started_def list_all_iff)
    then have "h < length (nodes s0)" "started_at (nodes s0 ! h) \<noteq> None" "h \<in> set hs"
      using len same hs h by auto
    then show ?thesis by (simp add: s1 stop_all_node)
  qed
  then have stopped: "list_all (\<lambda>h. stopped (nodes s1 ! h)) (liveSourcesRef s)"
    by (simp add: list_all_iff)
  have "onmessage t' (audio_message data) s1 =
     (None,
      s1\<lparr>liveNextStartTimeRef := max (liveNextStartTimeRef s1) t' + chunk_duration data,
        liveSourcesRef := set_add (liveSourcesRef s1) (length (nodes s1)),
        nodes := nodes s1 @ [\<lparr>node_duration = chunk_duration data,
                              started_at = Some (max (liveNextStartTimeRef s1) t'),
                              stopped = False\<rparr>]\<rparr>)"
    using assms(4-6) by (intro schedule_chunk) (simp_all add: zero)
  then show ?thesis
    using empty zero stopped assms(6) by (simp add: set_add_def max_def)
qed

text \<open>
  One chunk scheduled at clock \<open>0\<close>, an interruption at clock \<open>5\<close>, and the next chunk
  at clock \<open>5\<close>: it starts at \<open>5\<close>, not at the old pointer \<open>1/24000\<close>.
\<close>

theorem interruption_reset_witness:
  "\<exists>s1. onmessage 5 interruption one_chunk_scheduled = (None, s1) \<and>
      liveSourcesRef one_chunk_scheduled = [0] \<and>
      liveNextStartTimeRef one_chunk_scheduled = 1 / 24000 \<and>
      liveSourcesRef s1 = [] \<and> stopped (nodes s1 ! 0) \<and>
      (\<exists>s2. onmessage 5 (audio_message [0x00, 0x40]) s1 = (None, s2) \<and>
         nodes s2 = nodes s1 @ [\<lparr>node_duration = 1 / 24000, started_at = Some 5, stopped = False\<rparr>])"
proof -
  let ?s1 = "live_init\<lparr>nodes := [\<lparr>node_duration = 1 / 24000, started_at = Some 0, stopped = True\<rparr>]\<rparr>"
  have a: "sources_started one_chunk_scheduled"
    by (simp add: one_chunk_scheduled_eq sources_started_def live_init_def)
  have b: "interrupted interruption" by (simp add: interruption_def)
  have d: "even (length [0x00, 0x40 :: byte])" "2 \<le> length [0x00, 0x40 :: byte]" "(0 :: real) \<le> 5"
    by simp_all
  from interruption_reset[OF a b interrupt_one_chunk d]
  have "liveSourcesRef ?s1 = [] \<and> stopped (nodes ?s1 ! 0) \<and>
      (\<exists>s2. onmessage 5 (audio_message [0x00, 0x40]) ?s1 = (None, s2) \<and>
         nodes s2 = nodes ?s1 @ [\<lparr>node_duration = 1 / 24000, started_at = Some 5, stopped = False\<rparr>])"
    by (simp add: one_chunk_scheduled_eq chunk_duration_def live_init_def)
  moreover have "liveSourcesRef one_chunk_scheduled = [0]"
    "liveNextStartTimeRef one_chunk_scheduled = 1 / 24000"
    by (simp_all add: one_chunk_scheduled_eq)
  ultimately show ?thesis using interrupt_one_chunk by blast
qed

subsection \<open>Teardown\<close>

text \<open>
  From every state \<open>stopLiveMentor\<close> returns without an exception, and so does a second
  call right after it, which changes nothing. After the call the session ref and the
  stream ref are \<^verbatim>\<open>null\<close>, the set of scheduled sources is empty and live mode is off; the
  tracks of the stream that was held are stopped, the session that was held is closed
  unless its \<^verbatim>\<open>close()\<close> threw, and every source that was in the set is stopped.
\<close>

lemma stopLiveMentor_closed:
  "\<exists>s'. stopLiveMentor s = Inr s' \<and> stopLiveMentor s' = Inr s' \<and>
      liveSessionRef s' = None \<and> liveStreamRef s' = None \<and> liveSourcesRef s' = [] \<and>
      \<not> isLiveMode s' \<and>
      set_option (liveStreamRef s) \<subseteq> stopped_streams s' \<and>
      set_option (liveSessionRef s) \<subseteq> closed_sessions s' \<union> broken_sessions s \<and>
      broken_sessions s' = broken_sessions s \<and>
      (sources_started s \<longrightarrow> list_all (\<lambda>h. stopped (nodes s' ! h)) (liveSourcesRef s))"
proof -
  obtain s' where s': "stopLiveMentor s = Inr s'" by (simp add: stopLiveMentor_def Let_def)
  have refs: "liveSessionRef s' = None" "liveStreamRef s' = None" "liveSourcesRef s' = []"
    "\<not> isLiveMode s'"
    using s'
    by (auto simp: stopLiveMentor_def Let_def stop_all_refs stop_tracks_def session_close_def
        split: option.splits sum.splits if_splits)
  have again: "stopLiveMentor s' = Inr s'"
    using refs by (simp add: stopLiveMentor_def)
  have "set_option (liveStreamRef s) \<subseteq> stopped_streams s'"
    using s'
    by (auto simp: stopLiveMentor_def Let_def stop_all_refs stop_tracks_def session_close_def
        split: option.splits sum.splits if_splits)
  moreover have "set_option (liveSessionRef s) \<subseteq> closed_sessions s' \<union> broken_sessions s"
    using s'
    by (auto simp: stopLiveMentor_def Let_def stop_all_refs stop_tracks_def session_close_def
        split: option.splits sum.splits if_splits)
  moreover have "broken_sessions s' = broken_sessions s"
    using s'
    by (auto simp: stopLiveMentor_def Let_def stop_all_refs stop_tracks_def session_close_def
        split: option.splits sum.splits if_splits)
  moreover have "list_all (\<lambda>h. stopped (nodes s' ! h)) (liveSourcesRef s)" if inv: "sources_started s"
  proof -
    obtain s2 where s2: "s' = (stop_all (liveSourcesRef s) s2)\<lparr>liveSourcesRef := [], isLiveMode := False\<rparr>"
      "nodes s2 = nodes s"
      using s'
      by (auto simp: stopLiveMentor_def Let_def stop_tracks_def session_close_def
          split: option.splits sum.splits if_splits)
    have "stopped (nodes s' ! h)" if "h \<in> set (liveSourcesRef s)" for h
    proof -
      from inv that have "h < length (nodes s2)" "started_at (nodes s2 ! h) \<noteq> None"
        by (auto simp: sources_started_def list_all_iff s2(2))
      then show ?thesis using that by (simp add: s2(1) stop_all_node)
    qed
    then show ?thesis by (simp add: list_all_iff)
  qed
  ultimately show ?thesis using s' refs again by blast
qed

lemma startLiveMentor_in_two_steps:
  "startLiveMentor True False (Inr stream) connect s =
     connect_settled connect (awaiting_connect stream s)"
  by (simp add: startLiveMentor_def connect_settled_def awaiting_connect_def Let_def
      split: option.splits sum.splits)

text \<open>
  Claim C8 on the code. \<open>stopLiveMentor\<close> called while \<open>startLiveMentor\<close> is awaiting the
  connection finds no session in \<open>liveSessionRef\<close>: it stops the tracks of the new stream
  and closes nothing. When the connection settles, the rest of \<open>startLiveMentor\<close> installs
  the session: after the stop the session is open and held, never closed, while live mode
  is off.
\<close>

theorem stop_during_connect_leaves_session:
  "stopLiveMentor (awaiting_connect 0 live_init) = Inr (live_init\<lparr>stopped_streams := {0}\<rparr>) \<and>
   connect_settled (Inr 0) (live_init\<lparr>stopped_streams := {0}\<rparr>) =
     live_init\<lparr>liveSessionRef := Some 0, stopped_streams := {0}\<rparr> \<and>
   0 \<notin> closed_sessions (connect_settled (Inr 0) (live_init\<lparr>stopped_streams := {0}\<rparr>)) \<and>
   \<not> isLiveMode (connect_settled (Inr 0) (live_init\<lparr>stopped_streams := {0}\<rparr>))"
  by (simp add: stopLiveMentor_def awaiting_connect_def connect_settled_def stop_tracks_def
      live_init_def)

subsection \<open>Starting while a session is open\<close>

text \<open>
  Claim C7 on the code. \<open>startLiveMentor\<close> called while session \<open>0\<close> is open with stream
  \<open>0\<close> and one scheduled source stops the tracks of stream \<open>0\<close> and nothing else: session
  \<open>0\<close> is not closed, its source stays in the set and is not stopped, and the session ref
  is overwritten with the new session.
\<close>

theorem startLiveMentor_leaves_prior_session:
  "startLiveMentor True False (Inr 1) (Inr 1) session_running =
     session_running\<lparr>liveSessionRef := Some 1, liveStreamRef := Some 1, stopped_streams := {0}\<rparr> \<and>
   liveSessionRef session_running = Some 0 \<and>
   0 \<notin> closed_sessions (startLiveMentor True False (Inr 1) (Inr 1) session_running) \<and>
   liveSourcesRef (startLiveMentor True False (Inr 1) (Inr 1) session_running) = [0] \<and>
   \<not> stopped (nodes (startLiveMentor True False (Inr 1) (Inr 1) session_running) ! 0)"
  by (simp add: session_running_eq startLiveMentor_def stop_tracks_def live_init_def)

end
